theory Spec2Isabelle
  imports Main "HOL-Library.Word"
begin

section \<open>JavaScript strings and values\<close>

text \<open>
  A JavaScript string is modelled as a \<open>string\<close>: one \<open>char\<close> per UTF-16 code unit.
  The code under study only ever distinguishes ASCII characters (letters, digits and
  punctuation named in its regular expressions and literals); every other code unit is
  treated alike by it, so the 8-bit \<open>char\<close> loses nothing that these functions look at.
\<close>

definition asciiUpper :: string where
  "asciiUpper = ''ABCDEFGHIJKLMNOPQRSTUVWXYZ''"

definition asciiLower :: string where
  "asciiLower = ''abcdefghijklmnopqrstuvwxyz''"

definition asciiDigits :: string where
  "asciiDigits = ''0123456789''"

definition toLowerChar :: "char \<Rightarrow> char" where
  "toLowerChar c = (case map_of (zip asciiUpper asciiLower) c of Some l \<Rightarrow> l | None \<Rightarrow> c)"

definition toUpperChar :: "char \<Rightarrow> char" where
  "toUpperChar c = (case map_of (zip asciiLower asciiUpper) c of Some u \<Rightarrow> u | None \<Rightarrow> c)"

text \<open>
  \<open>String.prototype.toLowerCase\<close>, on the ASCII letters. Of the code units outside
  ASCII, JavaScript lower-cases only U+212A to an ASCII letter (\<open>k\<close>) and U+0130 to
  \<open>i\<close> followed by U+0307. The lower-cased strings are only ever tested for the
  suffixes \<open>.exe .bat .cmd .scr .com .pif .vbs .js .jar\<close>, which have no \<open>k\<close> and no
  final \<open>i\<close>, so leaving the other code units as they are changes no test.
\<close>

definition toLowerCase :: "string \<Rightarrow> string" where
  "toLowerCase s = map toLowerChar s"

definition toUpperCase :: "string \<Rightarrow> string" where
  "toUpperCase s = map toUpperChar s"

text \<open>\<open>String.prototype.startsWith\<close>, \<open>endsWith\<close> and \<open>includes\<close>.\<close>

definition startsWith :: "string \<Rightarrow> string \<Rightarrow> bool" where
  "startsWith s searchString = (take (length searchString) s = searchString)"

definition endsWith :: "string \<Rightarrow> string \<Rightarrow> bool" where
  "endsWith s searchString =
     (length searchString \<le> length s \<and>
      drop (length s - length searchString) s = searchString)"

fun includesStr :: "string \<Rightarrow> string \<Rightarrow> bool" where
  "includesStr [] searchString = (searchString = [])"
| "includesStr (c # cs) searchString =
     (if startsWith (c # cs) searchString then True else includesStr cs searchString)"

text \<open>The decimal rendering of an array index, as \<open>Object.entries\<close> names it.\<close>

fun showNat :: "nat \<Rightarrow> string" where
  "showNat n =
     (if n < 10 then [asciiDigits ! n]
      else showNat (n div 10) @ [asciiDigits ! (n mod 10)])"

declare showNat.simps [simp del]

text \<open>Reading a decimal numeral back; it shows that distinct indices get distinct names.\<close>

definition readNat :: "string \<Rightarrow> nat" where
  "readNat s = foldl (\<lambda>acc c. 10 * acc + (of_char c - 48)) 0 s"

text \<open>
  The values that flow through the sanitizers: the JSON values, \<open>undefined\<close>, an opaque
  \<open>File\<close> (named by its file name) and a \<open>FormData\<close> instance (its entry list, in
  order, names possibly repeated). An object is the list of its own enumerable
  properties in the order \<open>Object.entries\<close> lists them; its prototype is not modelled.
  The payload of a number is opaque to this code.
\<close>

datatype jsval =
    JUndefined
  | JNull
  | JBool bool
  | JNum int
  | JStr string
  | JFile string
  | JArr "jsval list"
  | JObj "(string \<times> jsval) list"
  | JFormData "(string \<times> jsval) list"

text \<open>
  \<open>CreateDataProperty\<close>, which object literals and the spread \<open>{...a, ...b}\<close> use:
  an existing key keeps its place and takes the new value, a new key is appended.
\<close>

fun defineProp :: "(string \<times> 'v) list \<Rightarrow> string \<Rightarrow> 'v \<Rightarrow> (string \<times> 'v) list" where
  "defineProp [] k v = [(k, v)]"
| "defineProp ((k', v') # ps) k v =
     (if k' = k then (k, v) # ps else (k', v') # defineProp ps k v)"

definition spread :: "(string \<times> 'v) list \<Rightarrow> (string \<times> 'v) list \<Rightarrow> (string \<times> 'v) list" where
  "spread target source = foldl (\<lambda>acc (k, v). defineProp acc k v) target source"

text \<open>
  The assignment \<open>obj[key] = value\<close> on an ordinary object created by \<open>{}\<close>. It is
  \<open>[[Set]]\<close>, not \<open>CreateDataProperty\<close>: for the key \<open>__proto__\<close> it finds the accessor
  that \<open>Object.prototype\<close> inherits to every ordinary object and calls its setter, which
  replaces the prototype (for an object or \<open>null\<close>) or does nothing (for any other
  value). In both cases no own property is created, so the list of own properties is
  left as it is. Every other key is created or overwritten as by \<open>defineProp\<close>.
\<close>

definition setProp :: "(string \<times> 'v) list \<Rightarrow> string \<Rightarrow> 'v \<Rightarrow> (string \<times> 'v) list" where
  "setProp obj key v = (if key = ''__proto__'' then obj else defineProp obj key v)"

section \<open>Configuration (index.ts)\<close>

record SecurityConfig =
  enableCSRF :: bool
  enableXSSProtection :: bool
  enableSQLInjectionProtection :: bool
  maxFileSize :: nat
  allowedFileTypes :: "string list"

definition defaultSecurityConfig :: SecurityConfig where
  "defaultSecurityConfig =
     \<lparr> enableCSRF = True,
       enableXSSProtection = True,
       enableSQLInjectionProtection = True,
       maxFileSize = 10 * 1024 * 1024,
       allowedFileTypes =
         [''image/jpeg'', ''image/png'', ''image/gif'', ''image/webp'',
          ''application/pdf'', ''text/plain'', ''application/msword'',
          ''application/vnd.openxmlformats-officedocument.wordprocessingml.document''] \<rparr>"

section \<open>InputSanitizer (index.ts)\<close>

text \<open>
  \<open>sanitizeText\<close> hands the string to the third-party \<open>DOMPurify.sanitize\<close> with empty
  allow-lists. That library is not part of the repository; it is the parameter
  \<open>purify\<close> of everything that calls it.
\<close>

definition sanitizeText :: "(string \<Rightarrow> string) \<Rightarrow> SecurityConfig \<Rightarrow> string \<Rightarrow> string" where
  "sanitizeText purify config input =
     (if \<not> enableXSSProtection config then input else purify input)"

text \<open>
  \<open>sanitizeFilename\<close>: every code unit outside \<open>[a-zA-Z0-9\-_\.]\<close> becomes \<open>_\<close>, runs of
  dots collapse to one dot, leading and trailing dots go, and the result is cut to 255.
\<close>

definition filenameChar :: "char \<Rightarrow> bool" where
  "filenameChar c = (c \<in> set (asciiLower @ asciiUpper @ asciiDigits @ ''-_.''))"

fun collapseDots :: "string \<Rightarrow> string" where
  "collapseDots (a # b # cs) =
     (if a = CHR ''.'' \<and> b = CHR ''.'' then collapseDots (b # cs)
      else a # collapseDots (b # cs))"
| "collapseDots cs = cs"

definition trimDots :: "string \<Rightarrow> string" where
  "trimDots s =
     rev (dropWhile (\<lambda>c. c = CHR ''.'') (rev (dropWhile (\<lambda>c. c = CHR ''.'') s)))"

definition sanitizeFilename :: "string \<Rightarrow> string" where
  "sanitizeFilename filename =
     take 255 (trimDots (collapseDots
       (map (\<lambda>c. if filenameChar c then c else CHR ''_'') filename)))"

text \<open>
  \<open>sanitizeSQLParameter\<close> runs three global replacements in turn, each deleting its
  matches from the result of the one before.

  First \<open>/(\b(SELECT|INSERT|UPDATE|DELETE|DROP|CREATE|ALTER|EXEC|UNION|SCRIPT)\b)/gi\<close>.
  A keyword is made of word characters (\<open>[A-Za-z0-9_]\<close>), so \<open>\b\<close> before and after
  it means that the match is a whole maximal run of word characters; no keyword is a
  prefix of another. The scan therefore walks the string, collects each maximal run of
  word characters (\<open>w\<close>) and drops the run when it is a keyword in any letter case.
\<close>

definition sqlKeywords :: "string list" where
  "sqlKeywords =
     [''SELECT'', ''INSERT'', ''UPDATE'', ''DELETE'', ''DROP'',
      ''CREATE'', ''ALTER'', ''EXEC'', ''UNION'', ''SCRIPT'']"

definition isWordChar :: "char \<Rightarrow> bool" where
  "isWordChar c = (c \<in> set (asciiLower @ asciiUpper @ asciiDigits @ ''_''))"

definition isKeyword :: "string \<Rightarrow> bool" where
  "isKeyword w = (toUpperCase w \<in> set sqlKeywords)"

definition flushWord :: "string \<Rightarrow> string" where
  "flushWord w = (if isKeyword w then [] else w)"

fun keywordScan :: "string \<Rightarrow> string \<Rightarrow> string" where
  "keywordScan w [] = flushWord w"
| "keywordScan w (c # cs) =
     (if isWordChar c then keywordScan (w @ [c]) cs
      else flushWord w @ c # keywordScan [] cs)"

definition stripKeywords :: "string \<Rightarrow> string" where
  "stripKeywords s = keywordScan [] s"

text \<open>
  Second \<open>/('|('')|"|;|%|_|\*|\?|<|>|\|)/g\<close>: each of these single characters is
  deleted (the alternative \<open>''\<close> never gets a turn, \<open>'\<close> matches first).
\<close>

definition sqlMetaChars :: string where
  "sqlMetaChars = [CHR 0x27, CHR 0x22] @ '';%_*?<>|''"

definition stripMetaChars :: "string \<Rightarrow> string" where
  "stripMetaChars s = filter (\<lambda>c. c \<notin> set sqlMetaChars) s"

text \<open>
  Third \<open>/(--|\*\/|\/\*)/g\<close>: from left to right, each occurrence of one of the three
  two-character markers is deleted, and the scan goes on behind it.
\<close>

definition sqlCommentMarkers :: "string list" where
  "sqlCommentMarkers = [''--'', ''*/'', ''/*'']"

fun stripCommentMarkers :: "string \<Rightarrow> string" where
  "stripCommentMarkers (a # b # cs) =
     (if [a, b] \<in> set sqlCommentMarkers then stripCommentMarkers cs
      else a # stripCommentMarkers (b # cs))"
| "stripCommentMarkers cs = cs"

definition sanitizeSQLString :: "string \<Rightarrow> string" where
  "sanitizeSQLString input = stripCommentMarkers (stripMetaChars (stripKeywords input))"

definition sanitizeSQLParameter :: "SecurityConfig \<Rightarrow> jsval \<Rightarrow> jsval" where
  "sanitizeSQLParameter config input =
     (if \<not> enableSQLInjectionProtection config then input
      else case input of JStr s \<Rightarrow> JStr (sanitizeSQLString s) | _ \<Rightarrow> input)"

text \<open>
  The whole words of a string, as \<open>\b\<close> delimits them: its maximal runs of word
  characters, from left to right. (Used to state what the keyword pass achieves.)
\<close>

fun wordScan :: "string \<Rightarrow> string \<Rightarrow> string list" where
  "wordScan w [] = (if w = [] then [] else [w])"
| "wordScan w (c # cs) =
     (if isWordChar c then wordScan (w @ [c]) cs
      else (if w = [] then [] else [w]) @ wordScan [] cs)"

definition wordsOf :: "string \<Rightarrow> string list" where
  "wordsOf s = wordScan [] s"

text \<open>
  The second and third replacement as one walk over the string. A character of the
  second pattern is dropped. A \<open>-\<close> is held back: if the next character that the second
  replacement leaves is a \<open>-\<close> too, the two are a \<open>--\<close> and both go; otherwise the held
  \<open>-\<close> is written, and the character after it. The markers \<open>*/\<close> and \<open>/*\<close> never
  match, their \<open>*\<close> being gone. Lemma \<open>dashScan_passes\<close> shows that the walk computes
  \<open>stripCommentMarkers (stripMetaChars s)\<close>.
\<close>

fun dashScan :: "bool \<Rightarrow> string \<Rightarrow> string" where
  "dashScan pending [] = (if pending then ''-'' else [])"
| "dashScan pending (c # cs) =
     (if c \<in> set sqlMetaChars then dashScan pending cs
      else if c = CHR ''-'' then dashScan (\<not> pending) cs
      else (if pending then ''-'' else []) @ c # dashScan False cs)"

text \<open>
  Of the word characters the second replacement deletes \<open>_\<close> only: what is left of a
  word is the word without its underscores.
\<close>

definition stripUnderscores :: "string \<Rightarrow> string" where
  "stripUnderscores w = filter (\<lambda>c. c \<noteq> CHR ''_'') w"

text \<open>
  \<open>wordsApart Clear s\<close>: the second and third replacement join no two words of \<open>s\<close>.
  Two words are joined when everything between them is deleted, that is, when between
  them there are only characters of the second pattern and an even number of \<open>-\<close>.
  The walk remembers what it has seen since the last letter or digit: \<open>InWord\<close>
  nothing, \<open>GapEven\<close> and \<open>GapOdd\<close> only deleted characters and an even or odd number
  of \<open>-\<close>, \<open>Clear\<close> a character that stays (or no letter or digit so far). An
  underscore is deleted wherever it stands and changes nothing. A letter or digit in
  state \<open>GapEven\<close> would come to stand next to the word before it.
\<close>

datatype gap_state = Clear | InWord | GapEven | GapOdd

fun wordsApart :: "gap_state \<Rightarrow> string \<Rightarrow> bool" where
  "wordsApart st [] = True"
| "wordsApart st (c # cs) =
     (if c = CHR ''_'' then wordsApart st cs
      else if isWordChar c then st \<noteq> GapEven \<and> wordsApart InWord cs
      else if c = CHR ''-'' then
        wordsApart (case st of Clear \<Rightarrow> Clear | InWord \<Rightarrow> GapOdd
                    | GapEven \<Rightarrow> GapOdd | GapOdd \<Rightarrow> GapEven) cs
      else if c \<in> set sqlMetaChars then
        wordsApart (case st of InWord \<Rightarrow> GapEven | _ \<Rightarrow> st) cs
      else wordsApart Clear cs)"

section \<open>CSRFProtection (index.ts)\<close>

text \<open>
  The token store is the \<open>Map\<close> from session ids to \<open>{token, expires, used}\<close>. The
  clock reading \<open>Date.now()\<close> (milliseconds) and the 32 bytes that
  \<open>crypto.getRandomValues\<close> delivers are inputs of the operations that ask for them;
  every operation returns the store it leaves behind.
\<close>

record csrf_token =
  token :: string
  expires :: int
  used :: bool

type_synonym csrf_store = "string \<rightharpoonup> csrf_token"

definition tokenExpiry :: int where
  "tokenExpiry = 60 * 60 * 1000"

definition hexDigits :: string where
  "hexDigits = ''0123456789abcdef''"

text \<open>\<open>byte.toString(16).padStart(2, '0')\<close>\<close>

definition byteToHex :: "8 word \<Rightarrow> string" where
  "byteToHex byte = [hexDigits ! (unat byte div 16), hexDigits ! (unat byte mod 16)]"

definition generateSecureToken :: "8 word list \<Rightarrow> string" where
  "generateSecureToken array = concat (map byteToHex array)"

definition generateToken ::
    "csrf_store \<Rightarrow> int \<Rightarrow> 8 word list \<Rightarrow> string \<Rightarrow> string \<times> csrf_store" where
  "generateToken tokens now random sessionId =
     (let tok = generateSecureToken random;
          exp = now + tokenExpiry
      in (tok, tokens(sessionId \<mapsto> \<lparr> token = tok, expires = exp, used = False \<rparr>)))"

definition validateToken ::
    "csrf_store \<Rightarrow> int \<Rightarrow> string \<Rightarrow> string \<Rightarrow> bool \<times> csrf_store" where
  "validateToken tokens now sessionId providedToken =
     (case tokens sessionId of
        None \<Rightarrow> (False, tokens)
      | Some tokenData \<Rightarrow>
          if used tokenData then (False, tokens)
          else if now > expires tokenData then (False, tokens(sessionId := None))
          else if token tokenData \<noteq> providedToken then (False, tokens)
          else (True, tokens(sessionId \<mapsto> tokenData\<lparr> used := True \<rparr>)))"

definition cleanup :: "csrf_store \<Rightarrow> int \<Rightarrow> csrf_store" where
  "cleanup tokens now =
     (\<lambda>sessionId.
        case tokens sessionId of
          None \<Rightarrow> None
        | Some tokenData \<Rightarrow>
            if now > expires tokenData \<or> used tokenData then None else Some tokenData)"

text \<open>
  A history of the store: operations with the clock reading at which each one runs,
  applied from the empty store on.
\<close>

datatype csrf_op =
    Generate string "8 word list"
  | Validate string string
  | Cleanup

fun csrf_step :: "csrf_store \<Rightarrow> int \<times> csrf_op \<Rightarrow> csrf_store" where
  "csrf_step tokens (now, Generate sessionId random) =
     snd (generateToken tokens now random sessionId)"
| "csrf_step tokens (now, Validate sessionId providedToken) =
     snd (validateToken tokens now sessionId providedToken)"
| "csrf_step tokens (now, Cleanup) = cleanup tokens now"

definition csrf_run :: "(int \<times> csrf_op) list \<Rightarrow> csrf_store" where
  "csrf_run ops = foldl csrf_step Map.empty ops"

section \<open>SecurityHeaders (index.ts)\<close>

text \<open>A \<open>Record<string, string>\<close> of headers is the list of its properties.\<close>

type_synonym headers = "(string \<times> string) list"

definition getXSSHeaders :: headers where
  "getXSSHeaders =
     [(''X-XSS-Protection'', ''1; mode=block''),
      (''X-Content-Type-Options'', ''nosniff'')]"

definition getFrameHeaders :: headers where
  "getFrameHeaders = [(''X-Frame-Options'', ''DENY'')]"

definition getContentTypeHeaders :: headers where
  "getContentTypeHeaders = [(''X-Content-Type-Options'', ''nosniff'')]"

definition getHSTSHeaders :: headers where
  "getHSTSHeaders =
     [(''Strict-Transport-Security'', ''max-age=31536000; includeSubDomains; preload'')]"

definition getReferrerHeaders :: headers where
  "getReferrerHeaders = [(''Referrer-Policy'', ''strict-origin-when-cross-origin'')]"

definition getPermissionHeaders :: headers where
  "getPermissionHeaders =
     [(''Permissions-Policy'', ''camera=(), microphone=(), geolocation=(), payment=()'')]"

definition getHeaders :: headers where
  "getHeaders =
     spread (spread (spread (spread (spread (spread []
       getXSSHeaders) getFrameHeaders) getContentTypeHeaders) getHSTSHeaders)
       getReferrerHeaders) getPermissionHeaders"

section \<open>FileUploadSecurity (index.ts)\<close>

text \<open>
  The descriptor \<open>{name, type, size, content?}\<close>; \<open>content\<close> is the byte sequence of
  the \<open>ArrayBuffer\<close> when one is given. An \<open>ArrayBuffer\<close> is an object and so always
  truthy, also when empty: \<open>if (file.content)\<close> asks only whether it is there.
\<close>

record file_descriptor =
  file_name :: string
  file_type :: string
  file_size :: nat
  file_content :: "8 word list option"

record upload_validation =
  valid :: bool
  errors :: "string list"

record file_validation = upload_validation +
  sanitizedName :: "string option"

definition dangerousExtensions :: "string list" where
  "dangerousExtensions =
     [''.exe'', ''.bat'', ''.cmd'', ''.scr'', ''.com'', ''.pif'', ''.vbs'', ''.js'', ''.jar'']"

definition signatures :: "8 word list list" where
  "signatures =
     [[0x4D, 0x5A],
      [0x7F, 0x45, 0x4C, 0x46],
      [0xCA, 0xFE, 0xBA, 0xBE],
      [0xFE, 0xED, 0xFA, 0xCE]]"

text \<open>
  \<open>matchesSignature\<close>: after the length check, the loop compares \<open>bytes[i]\<close> with
  \<open>signature[i]\<close> for each index of the signature and stops at the first difference.
\<close>

fun matchesFrom :: "8 word list \<Rightarrow> 8 word list \<Rightarrow> bool" where
  "matchesFrom bytes [] = True"
| "matchesFrom [] (s # signature) = False"
| "matchesFrom (b # bytes) (s # signature) =
     (if b \<noteq> s then False else matchesFrom bytes signature)"

definition matchesSignature :: "8 word list \<Rightarrow> 8 word list \<Rightarrow> bool" where
  "matchesSignature bytes signature =
     (if length bytes < length signature then False else matchesFrom bytes signature)"

fun scanLoop :: "8 word list \<Rightarrow> 8 word list list \<Rightarrow> string list \<Rightarrow> string list" where
  "scanLoop bytes [] errs = errs"
| "scanLoop bytes (signature # rest) errs =
     (if matchesSignature bytes signature
      then errs @ [''File contains executable code'']
      else scanLoop bytes rest errs)"

definition scanFileContent :: "8 word list \<Rightarrow> string list" where
  "scanFileContent content = scanLoop content signatures []"

text \<open>
  \<open>validateFile\<close>. The limit in the size message is the JavaScript rendering of the
  number \<open>maxFileSize / (1024 * 1024)\<close>, taken here as the parameter \<open>showMB\<close>.

  In the last step the source declares a second \<open>errors\<close> inside the block,
  \<open>const errors = this.scanFileContent(file.content)\<close>, and runs
  \<open>errors.forEach(error => errors.push(error))\<close>: both names are the block's own
  array, which receives a copy of each of its elements and is dropped at the end of
  the block. The function's \<open>errors\<close> is not touched there.
\<close>

definition validateFile ::
    "(nat \<Rightarrow> string) \<Rightarrow> SecurityConfig \<Rightarrow> file_descriptor \<Rightarrow> file_validation" where
  "validateFile showMB config file =
     (let errors1 =
            (if file_size file > maxFileSize config
             then [''File size exceeds maximum limit of '' @ showMB (maxFileSize config) @ ''MB'']
             else []);
          errors2 =
            (if file_type file \<notin> set (allowedFileTypes config)
             then errors1 @ [''File type '' @ file_type file @ '' is not allowed'']
             else errors1);
          sanitized = sanitizeFilename (file_name file);
          hasExtension =
            list_ex (\<lambda>ext. endsWith (toLowerCase sanitized) ext) dangerousExtensions;
          errors3 =
            (if hasExtension then errors2 @ [''File extension is not allowed''] else errors2);
          errors4 =
            (case file_content file of
               None \<Rightarrow> errors3
             | Some content \<Rightarrow>
                 (let inner = scanFileContent content;
                      pushed = foldl (\<lambda>acc error. acc @ [error]) inner inner
                  in errors3))
      in \<lparr> valid = (length errors4 = 0),
           errors = errors4,
           sanitizedName = (if length errors4 = 0 then Some sanitized else None) \<rparr>)"

section \<open>SessionSecurity (index.ts)\<close>

record session =
  userId :: string
  created :: int
  lastActivity :: int
  ipAddress :: string
  userAgent :: string

type_synonym session_store = "string \<rightharpoonup> session"

text \<open>The returned \<open>{valid, userId?, reason?}\<close>; an absent field is \<open>None\<close>.\<close>

record session_validation =
  session_valid :: bool
  session_userId :: "string option"
  reason :: "string option"

definition maxSessionAge :: int where
  "maxSessionAge = 24 * 60 * 60 * 1000"

definition maxIdleTime :: int where
  "maxIdleTime = 2 * 60 * 60 * 1000"

definition createSession ::
    "session_store \<Rightarrow> int \<Rightarrow> 8 word list \<Rightarrow> string \<Rightarrow> string \<Rightarrow> string
      \<Rightarrow> string \<times> session_store" where
  "createSession sessions now random uid ip agent =
     (let sessionId = generateSecureToken random
      in (sessionId,
          sessions(sessionId \<mapsto>
            \<lparr> userId = uid, created = now, lastActivity = now,
              ipAddress = ip, userAgent = agent \<rparr>)))"

definition validateSession ::
    "session_store \<Rightarrow> int \<Rightarrow> string \<Rightarrow> string \<Rightarrow> string
      \<Rightarrow> session_validation \<times> session_store" where
  "validateSession sessions now sessionId ip agent =
     (case sessions sessionId of
        None \<Rightarrow>
          (\<lparr> session_valid = False, session_userId = None,
             reason = Some ''Session not found'' \<rparr>, sessions)
      | Some s \<Rightarrow>
          if now - created s > maxSessionAge then
            (\<lparr> session_valid = False, session_userId = None,
               reason = Some ''Session expired'' \<rparr>, sessions(sessionId := None))
          else if now - lastActivity s > maxIdleTime then
            (\<lparr> session_valid = False, session_userId = None,
               reason = Some ''Session idle timeout'' \<rparr>, sessions(sessionId := None))
          else if ipAddress s \<noteq> ip then
            (\<lparr> session_valid = False, session_userId = None,
               reason = Some ''IP address mismatch'' \<rparr>, sessions(sessionId := None))
          else
            (\<lparr> session_valid = True, session_userId = Some (userId s), reason = None \<rparr>,
             sessions(sessionId \<mapsto> s\<lparr> lastActivity := now \<rparr>)))"

definition destroySession :: "session_store \<Rightarrow> string \<Rightarrow> session_store" where
  "destroySession sessions sessionId = sessions(sessionId := None)"

section \<open>SecurityMiddleware (middleware.ts)\<close>

record SecurityMiddlewareConfig =
  mw_enableCSRF :: bool
  mw_enableSecurityHeaders :: bool
  mw_enableInputSanitization :: bool
  rateLimitBypass :: "string list"

text \<open>The configuration the constructor builds when it is given nothing.\<close>

definition defaultMiddlewareConfig :: SecurityMiddlewareConfig where
  "defaultMiddlewareConfig =
     \<lparr> mw_enableCSRF = True,
       mw_enableSecurityHeaders = True,
       mw_enableInputSanitization = True,
       rateLimitBypass = [] \<rparr>"

definition applySecurityHeaders :: "SecurityMiddlewareConfig \<Rightarrow> headers" where
  "applySecurityHeaders config =
     (if \<not> mw_enableSecurityHeaders config then [] else getHeaders)"

text \<open>
  The middleware's collaborators are the module's singletons: \<open>defaultSanitizer\<close>
  (an \<open>InputSanitizer\<close> over \<open>defaultSecurityConfig\<close>) and \<open>defaultCSRFProtection\<close>,
  whose token store is the state threaded through the two CSRF operations.
\<close>

definition defaultSanitizerText :: "(string \<Rightarrow> string) \<Rightarrow> string \<Rightarrow> string" where
  "defaultSanitizerText purify input = sanitizeText purify defaultSecurityConfig input"

definition typeof :: "jsval \<Rightarrow> string" where
  "typeof v =
     (case v of
        JUndefined \<Rightarrow> ''undefined''
      | JBool b \<Rightarrow> ''boolean''
      | JNum n \<Rightarrow> ''number''
      | JStr s \<Rightarrow> ''string''
      | _ \<Rightarrow> ''object'')"

text \<open>
  The body of \<open>sanitizeFormData\<close> once sanitization is known to be enabled; \<open>txt\<close> is
  \<open>defaultSanitizer.sanitizeText\<close>. A \<open>FormData\<close> instance takes the first loop. Any
  other value takes the second loop, over \<open>Object.entries\<close>: the properties of an
  object, the elements of an array under their decimal indices, the code units of a
  string under theirs, and nothing for a \<open>File\<close>, a number or a boolean. The
  recursive call is made on a value whose \<open>typeof\<close> is \<open>object\<close> and that is not
  \<open>null\<close>. (\<open>Object.entries\<close> throws on \<open>null\<close> and \<open>undefined\<close>; \<open>sanitizeFormData\<close>
  below raises before it gets here, and no recursive call is made on them, so the last
  two equations are never used.)

  An object lists its own properties with the keys that are array indices first, in
  ascending order, and the other keys after them as they were created
  (\<open>ownPropertyOrder\<close>). The second loop inserts in \<open>Object.entries\<close> order, which
  already is that order, so nothing moves for a plain object or an array; the entries
  of a \<open>FormData\<close> come in the order they were appended, and the result of the first
  loop is put in order.

  Only the own properties of the result are modelled, not its prototype. The
  assignment under the key \<open>__proto__\<close> creates no property; when the value assigned is
  an object, the source also makes it the prototype of \<open>sanitized\<close>. In the first loop
  that object can be a \<open>File\<close>, and a later entry under a name that a \<open>File\<close> inherits
  as a getter without a setter (\<open>name\<close>, \<open>lastModified\<close>, \<open>webkitRelativePath\<close>, \<open>size\<close>,
  \<open>type\<close>) then makes the assignment throw a \<open>TypeError\<close>. The equation for \<open>FormData\<close>
  has no such exit: it stores the entry and goes on. The statements below that enter
  a loop evaluate the second one, on plain objects and arrays.
\<close>

definition isArrayIndex :: "string \<Rightarrow> bool" where
  "isArrayIndex k = (showNat (readNat k) = k \<and> readNat k < 2 ^ 32 - 1)"

definition ownPropertyOrder :: "(string \<times> 'v) list \<Rightarrow> (string \<times> 'v) list" where
  "ownPropertyOrder obj =
     sort_key (\<lambda>(k, v). readNat k) (filter (\<lambda>(k, v). isArrayIndex k) obj) @
     filter (\<lambda>(k, v). \<not> isArrayIndex k) obj"

lemma size_prop:
  "(k, v) \<in> set props \<Longrightarrow> size (v::jsval) < Suc (size_list (size_prod (\<lambda>x. 0) size) props)"
  by (induction props) auto

lemma size_item:
  "v \<in> set items \<Longrightarrow> size (v::jsval) < Suc (size_list size items)"
  by (induction items) auto

function sanitizeLoop :: "(string \<Rightarrow> string) \<Rightarrow> jsval \<Rightarrow> jsval" where
  "sanitizeLoop txt (JFormData entries) =
     JObj (ownPropertyOrder
       (foldl (\<lambda>sanitized (key, v).
             case v of
               JStr s \<Rightarrow> setProp sanitized key (JStr (txt s))
             | _ \<Rightarrow> setProp sanitized key v)
           [] entries))"
| "sanitizeLoop txt (JObj props) =
     JObj (foldl (\<lambda>sanitized (key, v).
             case v of
               JStr s \<Rightarrow> setProp sanitized key (JStr (txt s))
             | _ \<Rightarrow>
                 if typeof v = ''object'' \<and> v \<noteq> JNull
                 then setProp sanitized key (sanitizeLoop txt v)
                 else setProp sanitized key v)
           [] props)"
| "sanitizeLoop txt (JArr items) =
     JObj (foldl (\<lambda>sanitized (key, v).
             case v of
               JStr s \<Rightarrow> setProp sanitized key (JStr (txt s))
             | _ \<Rightarrow>
                 if typeof v = ''object'' \<and> v \<noteq> JNull
                 then setProp sanitized key (sanitizeLoop txt v)
                 else setProp sanitized key v)
           [] (zip (map showNat [0..<length items]) items))"
| "sanitizeLoop txt (JStr s) =
     JObj (foldl (\<lambda>sanitized (key, c). setProp sanitized key (JStr (txt [c])))
           [] (zip (map showNat [0..<length s]) s))"
| "sanitizeLoop txt (JFile n) = JObj []"
| "sanitizeLoop txt (JNum n) = JObj []"
| "sanitizeLoop txt (JBool b) = JObj []"
| "sanitizeLoop txt JNull = JObj []"
| "sanitizeLoop txt JUndefined = JObj []"
  by pat_completeness auto
termination
  by (relation "measure (\<lambda>(txt, v). size v)")
     (auto dest!: size_prop size_item set_zip_rightD)

text \<open>What one turn of the second loop stores under the key, as a function of the value.\<close>

definition sanitizeValue :: "(string \<Rightarrow> string) \<Rightarrow> jsval \<Rightarrow> jsval" where
  "sanitizeValue txt v =
     (case v of
        JStr s \<Rightarrow> JStr (txt s)
      | _ \<Rightarrow> if typeof v = ''object'' \<and> v \<noteq> JNull then sanitizeLoop txt v else v)"

datatype js_error = TypeError

definition sanitizeFormData ::
    "(string \<Rightarrow> string) \<Rightarrow> SecurityMiddlewareConfig \<Rightarrow> jsval \<Rightarrow> js_error + jsval" where
  "sanitizeFormData purify config formData =
     (if \<not> mw_enableInputSanitization config then Inr formData
      else if formData = JNull \<or> formData = JUndefined then Inl TypeError
      else Inr (sanitizeLoop (defaultSanitizerText purify) formData))"

definition generateCSRFToken ::
    "SecurityMiddlewareConfig \<Rightarrow> csrf_store \<Rightarrow> int \<Rightarrow> 8 word list \<Rightarrow> string
      \<Rightarrow> string \<times> csrf_store" where
  "generateCSRFToken config tokens now random sessionId =
     (if \<not> mw_enableCSRF config then ([], tokens)
      else generateToken tokens now random sessionId)"

definition validateCSRFToken ::
    "SecurityMiddlewareConfig \<Rightarrow> csrf_store \<Rightarrow> int \<Rightarrow> string \<Rightarrow> string
      \<Rightarrow> bool \<times> csrf_store" where
  "validateCSRFToken config tokens now sessionId tok =
     (if \<not> mw_enableCSRF config then (True, tokens)
      else validateToken tokens now sessionId tok)"

text \<open>
  \<open>validateFileUpload\<close> reads \<open>name\<close>, \<open>type\<close> and \<open>size\<close> of the \<open>File\<close>. Its limit is
  the constant \<open>10 * 1024 * 1024\<close>, and \<open>maxSize / (1024 * 1024)\<close> is the number 10,
  which the template renders as \<open>10\<close>.
\<close>

definition allowedTypes :: "string list" where
  "allowedTypes =
     [''image/jpeg'', ''image/png'', ''image/gif'', ''image/webp'',
      ''application/pdf'', ''text/plain'', ''application/msword'',
      ''application/vnd.openxmlformats-officedocument.wordprocessingml.document'']"

definition maxSize :: nat where
  "maxSize = 10 * 1024 * 1024"

definition validateFileUpload :: "file_descriptor \<Rightarrow> upload_validation" where
  "validateFileUpload file =
     (let errors1 =
            (if file_type file \<notin> set allowedTypes
             then [''File type '' @ file_type file @ '' is not allowed'']
             else []);
          errors2 =
            (if file_size file > maxSize
             then errors1 @ [''File size exceeds maximum limit of 10MB'']
             else errors1);
          hasExtension =
            list_ex (\<lambda>ext. endsWith (toLowerCase (file_name file)) ext) dangerousExtensions;
          errors3 =
            (if hasExtension
             then errors2 @ [''File extension is not allowed for security reasons'']
             else errors2)
      in \<lparr> valid = (length errors3 = 0), errors = errors3 \<rparr>)"

section \<open>Inputs used in the examples\<close>

definition allDisabled :: SecurityMiddlewareConfig where
  "allDisabled =
     \<lparr> mw_enableCSRF = False, mw_enableSecurityHeaders = False,
       mw_enableInputSanitization = False, rateLimitBypass = [] \<rparr>"

definition sessionAt :: "int \<Rightarrow> int \<Rightarrow> session" where
  "sessionAt c a =
     \<lparr> userId = ''alice'', created = c, lastActivity = a,
       ipAddress = ''10.0.0.1'', userAgent = ''Firefox'' \<rparr>"

definition exeUpload :: file_descriptor where
  "exeUpload =
     \<lparr> file_name = ''invoice.pdf.exe'', file_type = ''application/pdf'',
       file_size = 11 * 1024 * 1024, file_content = None \<rparr>"

definition randomBytes :: "8 word list" where
  "randomBytes =
     [0x00, 0x01, 0x02, 0x03, 0x04, 0x05, 0x06, 0x07,
      0x08, 0x09, 0x0a, 0x0b, 0x0c, 0x0d, 0x0e, 0x0f,
      0x10, 0x21, 0x32, 0x43, 0x54, 0x65, 0x76, 0x87,
      0x98, 0xa9, 0xba, 0xcb, 0xdc, 0xed, 0xfe, 0xff]"

definition randomHex :: string where
  "randomHex = ''000102030405060708090a0b0c0d0e0f102132435465768798a9bacbdcedfeff''"

definition issuedToken :: csrf_token where
  "issuedToken = \<lparr> token = randomHex, expires = 3600000, used = False \<rparr>"

definition peUpload :: file_descriptor where
  "peUpload =
     \<lparr> file_name = ''photo.png'', file_type = ''image/png'', file_size = 4,
       file_content = Some [0x4D, 0x5A, 0x90, 0x00] \<rparr>"

text \<open>The ten \<open>sqlInjectionPayloads\<close> of \<open>__tests__/penetrationTest.ts\<close>.\<close>

definition quote :: string where
  "quote = [CHR 0x27]"

definition sqlInjectionPayloads :: "string list" where
  "sqlInjectionPayloads =
     [quote @ ''; DROP TABLE users; --'',
      quote @ '' OR '' @ quote @ ''1'' @ quote @ ''='' @ quote @ ''1'',
      quote @ ''; INSERT INTO users VALUES ('' @ quote @ ''hacker'' @ quote @ '', '' @ quote
        @ ''password'' @ quote @ ''); --'',
      quote @ '' UNION SELECT password FROM users WHERE username='' @ quote @ ''admin'' @ quote
        @ ''--'',
      quote @ ''; UPDATE users SET password='' @ quote @ ''hacked'' @ quote
        @ '' WHERE username='' @ quote @ ''admin'' @ quote @ ''; --'',
      quote @ '' OR 1=1#'',
      quote @ '' OR '' @ quote @ ''a'' @ quote @ ''='' @ quote @ ''a'',
      [CHR 0x22] @ ''; DROP DATABASE; --'',
      quote @ ''; EXEC xp_cmdshell('' @ quote @ ''format c:'' @ quote @ ''); --'',
      quote @ '' OR EXISTS(SELECT * FROM users) --'']"

section \<open>The session registry\<close>

text \<open>
  C10. \<open>validateSession\<close> never reads its \<open>userAgent\<close> argument: two calls that differ
  only in it, on the same store at the same clock reading, return the same
  \<open>{valid, userId, reason}\<close> and leave the same store.
\<close>

theorem validateSession_ignores_userAgent:
  "validateSession sessions now sessionId ip agent1 =
   validateSession sessions now sessionId ip agent2"
  by (simp add: validateSession_def)

theorem validateSession_ignores_userAgent_witness:
  "validateSession
     (Map.empty(''sid-1'' \<mapsto>
        \<lparr> userId = ''alice'', created = 0, lastActivity = 500,
          ipAddress = ''10.0.0.1'', userAgent = ''Firefox'' \<rparr>))
     1000 ''sid-1'' ''10.0.0.1'' ''Firefox'' =
   validateSession
     (Map.empty(''sid-1'' \<mapsto>
        \<lparr> userId = ''alice'', created = 0, lastActivity = 500,
          ipAddress = ''10.0.0.1'', userAgent = ''Firefox'' \<rparr>))
     1000 ''sid-1'' ''10.0.0.1'' ''curl''"
  by (rule validateSession_ignores_userAgent)

text \<open>
  C6. \<open>validateSession\<close> makes its checks in this order and answers with the first that
  fails: no record (\<open>Session not found\<close>), more than 24 hours since creation
  (\<open>Session expired\<close>), more than 2 hours since the last activity
  (\<open>Session idle timeout\<close>), an IP address other than the stored one
  (\<open>IP address mismatch\<close>; the comparison is always made). After each failure the
  store holds no record for the session id. When no check fails the call is valid,
  returns the bound user id and sets the record's last activity to the clock reading.
  Whichever of the three conditions on an existing record holds, the call fails and
  the record is deleted.
\<close>

theorem validateSession_outcomes:
  "(sessions sessionId = None \<longrightarrow>
      validateSession sessions now sessionId ip agent =
        (\<lparr> session_valid = False, session_userId = None,
           reason = Some ''Session not found'' \<rparr>, sessions)) \<and>
   (sessions sessionId = Some s \<and> now - created s > 24 * 60 * 60 * 1000 \<longrightarrow>
      validateSession sessions now sessionId ip agent =
        (\<lparr> session_valid = False, session_userId = None,
           reason = Some ''Session expired'' \<rparr>, sessions(sessionId := None))) \<and>
   (sessions sessionId = Some s \<and> \<not> now - created s > 24 * 60 * 60 * 1000 \<and>
    now - lastActivity s > 2 * 60 * 60 * 1000 \<longrightarrow>
      validateSession sessions now sessionId ip agent =
        (\<lparr> session_valid = False, session_userId = None,
           reason = Some ''Session idle timeout'' \<rparr>, sessions(sessionId := None))) \<and>
   (sessions sessionId = Some s \<and> \<not> now - created s > 24 * 60 * 60 * 1000 \<and>
    \<not> now - lastActivity s > 2 * 60 * 60 * 1000 \<and> ipAddress s \<noteq> ip \<longrightarrow>
      validateSession sessions now sessionId ip agent =
        (\<lparr> session_valid = False, session_userId = None,
           reason = Some ''IP address mismatch'' \<rparr>, sessions(sessionId := None))) \<and>
   (sessions sessionId = Some s \<and> \<not> now - created s > 24 * 60 * 60 * 1000 \<and>
    \<not> now - lastActivity s > 2 * 60 * 60 * 1000 \<and> ipAddress s = ip \<longrightarrow>
      validateSession sessions now sessionId ip agent =
        (\<lparr> session_valid = True, session_userId = Some (userId s), reason = None \<rparr>,
         sessions(sessionId \<mapsto> s\<lparr> lastActivity := now \<rparr>))) \<and>
   (sessions sessionId = Some s \<and>
    (now - created s > 24 * 60 * 60 * 1000 \<or> now - lastActivity s > 2 * 60 * 60 * 1000 \<or>
     ipAddress s \<noteq> ip) \<longrightarrow>
      \<not> session_valid (fst (validateSession sessions now sessionId ip agent)) \<and>
      session_userId (fst (validateSession sessions now sessionId ip agent)) = None \<and>
      snd (validateSession sessions now sessionId ip agent) = sessions(sessionId := None))"
  by (simp add: validateSession_def maxSessionAge_def maxIdleTime_def)

theorem validateSession_outcomes_witness:
  "validateSession Map.empty 0 ''sid-1'' ''10.0.0.1'' ''Firefox'' =
     (\<lparr> session_valid = False, session_userId = None,
        reason = Some ''Session not found'' \<rparr>, Map.empty) \<and>
   validateSession [''sid-1'' \<mapsto> sessionAt 0 0] 86400001 ''sid-1'' ''10.0.0.1'' ''Firefox'' =
     (\<lparr> session_valid = False, session_userId = None,
        reason = Some ''Session expired'' \<rparr>, Map.empty) \<and>
   validateSession [''sid-1'' \<mapsto> sessionAt 0 0] 7200001 ''sid-1'' ''10.0.0.1'' ''Firefox'' =
     (\<lparr> session_valid = False, session_userId = None,
        reason = Some ''Session idle timeout'' \<rparr>, Map.empty) \<and>
   validateSession [''sid-1'' \<mapsto> sessionAt 0 0] 7200000 ''sid-1'' ''10.0.0.2'' ''Firefox'' =
     (\<lparr> session_valid = False, session_userId = None,
        reason = Some ''IP address mismatch'' \<rparr>, Map.empty) \<and>
   validateSession [''sid-1'' \<mapsto> sessionAt 0 0] 7200000 ''sid-1'' ''10.0.0.1'' ''Firefox'' =
     (\<lparr> session_valid = True, session_userId = Some ''alice'', reason = None \<rparr>,
      [''sid-1'' \<mapsto> sessionAt 0 7200000])"
  using validateSession_outcomes
      [where sessions = Map.empty and sessionId = "''sid-1''" and now = 0
         and ip = "''10.0.0.1''" and agent = "''Firefox''"]
    validateSession_outcomes
      [where sessions = "[''sid-1'' \<mapsto> sessionAt 0 0]" and sessionId = "''sid-1''"
         and s = "sessionAt 0 0" and now = 86400001
         and ip = "''10.0.0.1''" and agent = "''Firefox''"]
    validateSession_outcomes
      [where sessions = "[''sid-1'' \<mapsto> sessionAt 0 0]" and sessionId = "''sid-1''"
         and s = "sessionAt 0 0" and now = 7200001
         and ip = "''10.0.0.1''" and agent = "''Firefox''"]
    validateSession_outcomes
      [where sessions = "[''sid-1'' \<mapsto> sessionAt 0 0]" and sessionId = "''sid-1''"
         and s = "sessionAt 0 0" and now = 7200000
         and ip = "''10.0.0.2''" and agent = "''Firefox''"]
    validateSession_outcomes
      [where sessions = "[''sid-1'' \<mapsto> sessionAt 0 0]" and sessionId = "''sid-1''"
         and s = "sessionAt 0 0" and now = 7200000
         and ip = "''10.0.0.1''" and agent = "''Firefox''"]
  by (simp add: sessionAt_def)

section \<open>Disabled features\<close>

text \<open>
  C8. A feature switched off in the middleware's configuration is a no-op: with input
  sanitization off, \<open>sanitizeFormData\<close> returns its argument as it is; with CSRF off,
  \<open>generateCSRFToken\<close> returns the empty string and \<open>validateCSRFToken\<close> returns true
  for every session id and token, neither touching the token store; with security
  headers off, \<open>applySecurityHeaders\<close> returns the empty mapping.
\<close>

theorem disabled_features_are_noops:
  "(\<not> mw_enableInputSanitization config \<longrightarrow>
      sanitizeFormData purify config formData = Inr formData) \<and>
   (\<not> mw_enableCSRF config \<longrightarrow>
      generateCSRFToken config tokens now random sessionId = ([], tokens) \<and>
      validateCSRFToken config tokens now sessionId tok = (True, tokens)) \<and>
   (\<not> mw_enableSecurityHeaders config \<longrightarrow> applySecurityHeaders config = [])"
  by (simp add: sanitizeFormData_def generateCSRFToken_def validateCSRFToken_def
        applySecurityHeaders_def)

theorem disabled_features_are_noops_witness:
  "sanitizeFormData (\<lambda>s. []) allDisabled (JObj [(''comment'', JStr ''<b>hi</b>'')])
     = Inr (JObj [(''comment'', JStr ''<b>hi</b>'')]) \<and>
   generateCSRFToken allDisabled Map.empty 0 [0x01, 0x02] ''sess-1'' = ([], Map.empty) \<and>
   validateCSRFToken allDisabled Map.empty 0 ''sess-1'' ''any-token'' = (True, Map.empty) \<and>
   applySecurityHeaders allDisabled = []"
  using disabled_features_are_noops
    [of allDisabled "\<lambda>s. []" "JObj [(''comment'', JStr ''<b>hi</b>'')]"
        Map.empty 0 "[0x01, 0x02]" "''sess-1''" "''any-token''"]
  by (simp add: allDisabled_def)

section \<open>File uploads through the middleware\<close>

lemma endsWith_append: "endsWith s e \<longleftrightarrow> (\<exists>p. s = p @ e)"
proof
  assume "endsWith s e"
  then have "s = take (length s - length e) s @ e"
    by (metis append_take_drop_id endsWith_def)
  then show "\<exists>p. s = p @ e" ..
next
  assume "\<exists>p. s = p @ e"
  then show "endsWith s e" by (auto simp: endsWith_def)
qed

lemma toLowerCase_dangerous:
  "ext \<in> set dangerousExtensions \<Longrightarrow> toLowerCase ext = ext"
  by (auto simp: dangerousExtensions_def toLowerCase_def toLowerChar_def
        asciiUpper_def asciiLower_def)

lemma endsWith_toLowerCase:
  assumes "ext \<in> set dangerousExtensions" and "endsWith name ext"
  shows "endsWith (toLowerCase name) ext"
proof -
  from assms(2) obtain p where "name = p @ ext"
    by (auto simp: endsWith_append)
  then have "toLowerCase name = toLowerCase p @ toLowerCase ext"
    by (simp add: toLowerCase_def)
  with assms(1) show ?thesis
    by (auto simp: endsWith_append toLowerCase_dangerous)
qed

text \<open>
  C5. \<open>validateFileUpload\<close> rejects a file whose name ends with a denylisted extension,
  whatever its declared MIME type, with the extension error in the list; it rejects a
  file larger than 10 MiB (its fixed limit) with the size error, which names the limit;
  and since the checks accumulate, a file with both faults gets both errors.
\<close>

theorem validateFileUpload_rejects:
  "(ext \<in> set dangerousExtensions \<and> endsWith (file_name file) ext \<longrightarrow>
      \<not> valid (validateFileUpload file) \<and>
      ''File extension is not allowed for security reasons''
        \<in> set (errors (validateFileUpload file))) \<and>
   (file_size file > 10 * 1024 * 1024 \<longrightarrow>
      \<not> valid (validateFileUpload file) \<and>
      ''File size exceeds maximum limit of 10MB'' \<in> set (errors (validateFileUpload file))) \<and>
   (ext \<in> set dangerousExtensions \<and> endsWith (file_name file) ext \<and>
    file_size file > 10 * 1024 * 1024 \<longrightarrow>
      {''File extension is not allowed for security reasons'',
       ''File size exceeds maximum limit of 10MB''} \<subseteq> set (errors (validateFileUpload file)))"
proof -
  have ext: "list_ex (\<lambda>e. endsWith (toLowerCase (file_name file)) e) dangerousExtensions"
    if "ext \<in> set dangerousExtensions" "endsWith (file_name file) ext"
    using that endsWith_toLowerCase by (auto simp: list_ex_iff)
  show ?thesis
    using ext by (auto simp: validateFileUpload_def Let_def maxSize_def)
qed

theorem validateFileUpload_rejects_witness:
  "\<not> valid (validateFileUpload exeUpload) \<and>
   ''File extension is not allowed for security reasons''
      \<in> set (errors (validateFileUpload exeUpload)) \<and>
   ''File size exceeds maximum limit of 10MB'' \<in> set (errors (validateFileUpload exeUpload))"
  using validateFileUpload_rejects [of "''.exe''" exeUpload]
  by (simp add: exeUpload_def dangerousExtensions_def endsWith_def)

section \<open>The CSRF token store\<close>

lemma generateSecureToken_randomBytes: "generateSecureToken randomBytes = randomHex"
  by (simp add: generateSecureToken_def randomBytes_def randomHex_def byteToHex_def hexDigits_def)




text \<open>
  C7, as stated, at two histories: after a token is issued and validated, its record is
  still in the store, marked used; and a record whose expiry (3600000) lies before the
  clock reading of the latest operation (4000000) is still in the store.
\<close>

theorem csrf_used_record_stays_counterexample:
  "csrf_run [(0, Generate ''sess-1'' randomBytes), (1000, Validate ''sess-1'' randomHex)]
     ''sess-1'' = Some \<lparr> token = randomHex, expires = 3600000, used = True \<rparr> \<and>
   csrf_run [(0, Generate ''sess-1'' randomBytes), (4000000, Generate ''sess-2'' randomBytes)]
     ''sess-1'' = Some \<lparr> token = randomHex, expires = 3600000, used = False \<rparr>"
  by (simp add: csrf_run_def generateToken_def validateToken_def
        generateSecureToken_randomBytes tokenExpiry_def)

text \<open>
  C7, amended. The store holds at most one record per session id (it is a map), and
  \<open>generateToken\<close> overwrites the session's record with a fresh unused one that expires
  an hour later. A record that is used or expired is not removed at once: a successful
  validation keeps the record and marks it used, an expired unused record is deleted
  by the next \<open>validateToken\<close> for its session, and \<open>cleanup\<close> deletes exactly the
  records that are used or expired at its clock reading. Such a record never
  validates, and after any history that ends with \<open>cleanup\<close> no record in the store is
  used or expired.
\<close>

theorem csrf_store_records:
  "snd (generateToken tokens now random S) =
      tokens(S \<mapsto> \<lparr> token = generateSecureToken random,
                     expires = now + 60 * 60 * 1000, used = False \<rparr>) \<and>
   (tokens S = Some r \<and> (used r \<or> now > expires r) \<longrightarrow>
      fst (validateToken tokens now S T) = False \<and> cleanup tokens now S = None) \<and>
   (tokens S = Some r \<and> \<not> used r \<and> now > expires r \<longrightarrow>
      snd (validateToken tokens now S T) = tokens(S := None)) \<and>
   (tokens S = Some r \<and> \<not> used r \<and> \<not> now > expires r \<and> token r = T \<longrightarrow>
      validateToken tokens now S T = (True, tokens(S \<mapsto> r\<lparr> used := True \<rparr>))) \<and>
   (tokens S = Some r \<and> \<not> used r \<and> \<not> now > expires r \<longrightarrow>
      cleanup tokens now S = Some r) \<and>
   (cleanup tokens now S = Some r \<longrightarrow> tokens S = Some r \<and> \<not> used r \<and> \<not> now > expires r) \<and>
   (csrf_run (ops @ [(now, Cleanup)]) S = Some r \<longrightarrow> \<not> used r \<and> \<not> now > expires r)"
  by (auto simp: generateToken_def validateToken_def cleanup_def tokenExpiry_def Let_def
        csrf_run_def split: option.splits if_splits)


theorem csrf_store_records_witness:
  "snd (generateToken Map.empty 0 randomBytes ''sess-1'') = [''sess-1'' \<mapsto> issuedToken] \<and>
   fst (validateToken [''sess-1'' \<mapsto> issuedToken] 3600001 ''sess-1'' randomHex) = False \<and>
   cleanup [''sess-1'' \<mapsto> issuedToken] 3600001 ''sess-1'' = None \<and>
   snd (validateToken [''sess-1'' \<mapsto> issuedToken] 3600001 ''sess-1'' randomHex) = Map.empty \<and>
   validateToken [''sess-1'' \<mapsto> issuedToken] 1000 ''sess-1'' randomHex =
     (True, [''sess-1'' \<mapsto> issuedToken\<lparr> used := True \<rparr>]) \<and>
   cleanup [''sess-1'' \<mapsto> issuedToken] 1000 ''sess-1'' = Some issuedToken \<and>
   csrf_run ([(0, Generate ''sess-1'' randomBytes)] @ [(1000, Cleanup)]) ''sess-1'' =
     Some issuedToken"
  using
    csrf_store_records
      [where tokens = Map.empty and now = 0 and random = randomBytes and S = "''sess-1''"]
    csrf_store_records
      [where tokens = "[''sess-1'' \<mapsto> issuedToken]" and now = 3600001
         and S = "''sess-1''" and r = issuedToken and T = randomHex]
    csrf_store_records
      [where tokens = "[''sess-1'' \<mapsto> issuedToken]" and now = 1000
         and S = "''sess-1''" and r = issuedToken and T = randomHex
         and ops = "[(0, Generate ''sess-1'' randomBytes)]"]
  by (simp add: generateSecureToken_randomBytes issuedToken_def csrf_run_def
        generateToken_def cleanup_def tokenExpiry_def)

section \<open>Security headers\<close>

lemma getHeaders_value:
  "getHeaders =
     [(''X-XSS-Protection'', ''1; mode=block''),
      (''X-Content-Type-Options'', ''nosniff''),
      (''X-Frame-Options'', ''DENY''),
      (''Strict-Transport-Security'', ''max-age=31536000; includeSubDomains; preload''),
      (''Referrer-Policy'', ''strict-origin-when-cross-origin''),
      (''Permissions-Policy'', ''camera=(), microphone=(), geolocation=(), payment=()'')]"
  by (simp add: getHeaders_def spread_def getXSSHeaders_def getFrameHeaders_def
        getContentTypeHeaders_def getHSTSHeaders_def getReferrerHeaders_def
        getPermissionHeaders_def)

lemma permissions_policy_contents:
  "includesStr ''camera=(), microphone=(), geolocation=(), payment=()'' ''camera=()'' \<and>
   includesStr ''camera=(), microphone=(), geolocation=(), payment=()'' ''microphone=()'' \<and>
   includesStr ''camera=(), microphone=(), geolocation=(), payment=()'' ''geolocation=()'' \<and>
   includesStr ''camera=(), microphone=(), geolocation=(), payment=()'' ''payment=()''"
  by code_simp

text \<open>
  C2. At the default configuration, where security headers are enabled,
  \<open>applySecurityHeaders\<close> returns the six headers below and no
  \<open>Content-Security-Policy\<close>. The claim requires a non-empty value for that header, and
  so do the module's tests (\<open>expect(headers['Content-Security-Policy']).toBeDefined()\<close>
  in \<open>__tests__/penetrationTest.ts\<close>, \<open>toHaveProperty('Content-Security-Policy')\<close> in the
  unit tests) and its notes (\<open>SECURITY_ENHANCEMENTS_IMPLEMENTED.md\<close>,
  \<open>SECURITY_TESTING_COMPLETE.md\<close>); \<open>getHeaders\<close> has no line that builds it.
\<close>

theorem applySecurityHeaders_lacks_csp:
  "applySecurityHeaders defaultMiddlewareConfig =
     [(''X-XSS-Protection'', ''1; mode=block''),
      (''X-Content-Type-Options'', ''nosniff''),
      (''X-Frame-Options'', ''DENY''),
      (''Strict-Transport-Security'', ''max-age=31536000; includeSubDomains; preload''),
      (''Referrer-Policy'', ''strict-origin-when-cross-origin''),
      (''Permissions-Policy'', ''camera=(), microphone=(), geolocation=(), payment=()'')] \<and>
   map_of (applySecurityHeaders defaultMiddlewareConfig) ''Content-Security-Policy'' = None"
  by (simp add: applySecurityHeaders_def defaultMiddlewareConfig_def getHeaders_value)

text \<open>
  The same holds at every configuration that enables the headers, and the other parts
  of C2 do hold: \<open>Strict-Transport-Security\<close> is non-empty, \<open>X-Frame-Options\<close> is
  \<open>DENY\<close>, \<open>Permissions-Policy\<close> contains \<open>camera=()\<close>, \<open>microphone=()\<close>,
  \<open>geolocation=()\<close> and \<open>payment=()\<close>, and with security headers disabled the mapping
  is empty.
\<close>

lemma applySecurityHeaders_enabled:
  assumes "mw_enableSecurityHeaders config"
  shows "map_of (applySecurityHeaders config) ''Content-Security-Policy'' = None"
    and "map_of (applySecurityHeaders config) ''Strict-Transport-Security'' =
           Some ''max-age=31536000; includeSubDomains; preload''"
    and "map_of (applySecurityHeaders config) ''X-Frame-Options'' = Some ''DENY''"
    and "\<exists>v. map_of (applySecurityHeaders config) ''Permissions-Policy'' = Some v \<and>
           includesStr v ''camera=()'' \<and> includesStr v ''microphone=()'' \<and>
           includesStr v ''geolocation=()'' \<and> includesStr v ''payment=()''"
proof -
  from assms have "applySecurityHeaders config = getHeaders"
    by (simp add: applySecurityHeaders_def)
  then show "map_of (applySecurityHeaders config) ''Content-Security-Policy'' = None"
    and "map_of (applySecurityHeaders config) ''Strict-Transport-Security'' =
           Some ''max-age=31536000; includeSubDomains; preload''"
    and "map_of (applySecurityHeaders config) ''X-Frame-Options'' = Some ''DENY''"
    and "\<exists>v. map_of (applySecurityHeaders config) ''Permissions-Policy'' = Some v \<and>
           includesStr v ''camera=()'' \<and> includesStr v ''microphone=()'' \<and>
           includesStr v ''geolocation=()'' \<and> includesStr v ''payment=()''"
    using permissions_policy_contents
    by (simp_all add: getHeaders_value del: includesStr.simps)
qed

lemma applySecurityHeaders_disabled:
  "\<not> mw_enableSecurityHeaders config \<Longrightarrow> applySecurityHeaders config = []"
  by (simp add: applySecurityHeaders_def)

section \<open>File uploads: the content scan\<close>

lemma sanitize_photo: "sanitizeFilename ''photo.png'' = ''photo.png''"
  by code_simp

lemma ext_photo:
  "list_ex (\<lambda>ext. endsWith (toLowerCase ''photo.png'') ext) dangerousExtensions = False"
  by code_simp

text \<open>
  C3. A PNG-named, PNG-typed, 4-byte upload whose content starts with the PE magic
  number \<open>4D 5A\<close>: the scanner reports it, and \<open>validateFile\<close> returns valid with no
  error all the same, because the scanner's report never reaches the function's
  error list. (No size message is built for this file, so the result is the same
  whatever \<open>showMB\<close> is.)
\<close>

theorem validateFile_accepts_executable:
  "scanFileContent [0x4D, 0x5A, 0x90, 0x00] = [''File contains executable code''] \<and>
   validateFile showMB defaultSecurityConfig peUpload =
     \<lparr> valid = True, errors = [], sanitizedName = Some ''photo.png'' \<rparr>"
proof
  show "scanFileContent [0x4D, 0x5A, 0x90, 0x00] = [''File contains executable code'']"
    by (simp add: scanFileContent_def signatures_def matchesSignature_def)
  show "validateFile showMB defaultSecurityConfig peUpload =
     \<lparr> valid = True, errors = [], sanitizedName = Some ''photo.png'' \<rparr>"
    by (simp add: validateFile_def peUpload_def defaultSecurityConfig_def
          sanitize_photo ext_photo)
qed

text \<open>
  More generally the verdict of \<open>validateFile\<close> does not depend on the content at all,
  while the scanner on its own recognises each of the four signatures.
\<close>

lemma validateFile_ignores_content:
  "validateFile showMB config (file\<lparr> file_content := c \<rparr>) = validateFile showMB config file"
proof (cases c)
  case None
  show ?thesis
    by (cases "file_content file") (simp_all add: validateFile_def None)
next
  case (Some a)
  show ?thesis
    by (cases "file_content file") (simp_all add: validateFile_def Some)
qed

lemma scanFileContent_detects:
  "signature \<in> set signatures \<Longrightarrow> scanFileContent (signature @ rest) = [''File contains executable code'']"
  by (auto simp: scanFileContent_def signatures_def matchesSignature_def)

section \<open>The SQL parameter sanitizer\<close>

lemma startsWith_dd_Cons2 [simp]:
  "startsWith (a # b # t) ''--'' \<longleftrightarrow> a = CHR ''-'' \<and> b = CHR ''-''"
  by (simp add: startsWith_def)

lemma startsWith_dd_short [simp]:
  "startsWith [a] ''--'' = False" "startsWith [] ''--'' = False"
  by (simp_all add: startsWith_def)

declare includesStr.simps [simp del]

lemma includes_dd_Nil [simp]: "includesStr [] ''--'' = False"
  by (simp add: includesStr.simps)

lemma includes_dd_single [simp]: "includesStr [a] ''--'' = False"
  by (simp add: includesStr.simps)

lemma includes_dd_Cons2 [simp]:
  "includesStr (a # b # cs) ''--'' \<longleftrightarrow>
     (a = CHR ''-'' \<and> b = CHR ''-'') \<or> includesStr (b # cs) ''--''"
  by (subst includesStr.simps) auto

lemma marker_iff:
  "[a, b] \<in> set sqlCommentMarkers \<longleftrightarrow>
     (a = CHR ''-'' \<and> b = CHR ''-'') \<or> (a = CHR ''*'' \<and> b = CHR ''/'') \<or>
     (a = CHR ''/'' \<and> b = CHR ''*'')"
  by (auto simp: sqlCommentMarkers_def)

lemma strip_keeps_head:
  assumes "b \<noteq> CHR ''-''" and "CHR ''*'' \<notin> set (b # cs)"
  shows "\<exists>t. stripCommentMarkers (b # cs) = b # t"
proof (cases cs)
  case Nil
  then show ?thesis by simp
next
  case (Cons c cs')
  with assms have "[b, c] \<notin> set sqlCommentMarkers"
    by (auto simp: marker_iff)
  with Cons show ?thesis by simp
qed

lemma no_dashes_after_strip:
  "CHR ''*'' \<notin> set xs \<Longrightarrow> \<not> includesStr (stripCommentMarkers xs) ''--''"
proof (induction xs rule: stripCommentMarkers.induct)
  case (1 a b cs)
  show ?case
  proof (cases "[a, b] \<in> set sqlCommentMarkers")
    case True
    with 1 show ?thesis by simp
  next
    case False
    then have unfold: "stripCommentMarkers (a # b # cs) = a # stripCommentMarkers (b # cs)"
      by simp
    from False 1 have rest: "\<not> includesStr (stripCommentMarkers (b # cs)) ''--''"
      by simp
    show ?thesis
    proof (cases "a = CHR ''-''")
      case True
      with False have b: "b \<noteq> CHR ''-''"
        by (auto simp: marker_iff)
      with 1(3) obtain t where t: "stripCommentMarkers (b # cs) = b # t"
        using strip_keeps_head [of b cs] by auto
      with rest b show ?thesis
        unfolding unfold by simp
    next
      case notdash: False
      show ?thesis
      proof (cases "stripCommentMarkers (b # cs)")
        case Nil
        then show ?thesis unfolding unfold by simp
      next
        case (Cons y ys)
        with rest notdash show ?thesis
          unfolding unfold by simp
      qed
    qed
  qed
qed simp_all

lemma set_strip_subset: "set (stripCommentMarkers xs) \<subseteq> set xs"
  by (induction xs rule: stripCommentMarkers.induct) auto

text \<open>The three passes on \<open>SEL;ECT password FROM users\<close>.\<close>

lemma kw1: "stripKeywords ''SEL;ECT password FROM users'' = ''SEL;ECT password FROM users''"
  by (simp add: stripKeywords_def isWordChar_def flushWord_def isKeyword_def toUpperCase_def
        toUpperChar_def sqlKeywords_def asciiLower_def asciiUpper_def asciiDigits_def)

lemma kw2: "stripMetaChars ''SEL;ECT password FROM users'' = ''SELECT password FROM users''"
  by (simp add: stripMetaChars_def sqlMetaChars_def)

lemma kw3: "stripCommentMarkers ''SELECT password FROM users'' = ''SELECT password FROM users''"
  by (simp add: sqlCommentMarkers_def)

text \<open>
  C4, as stated, at the input \<open>SEL;ECT password FROM users\<close>: the keyword pass finds
  no keyword (\<open>SEL\<close> and \<open>ECT\<close> are separate words), the next pass deletes the
  semicolon, and the output is \<open>SELECT password FROM users\<close>, which contains the
  keyword \<open>SELECT\<close>.
\<close>

theorem sanitizeSQL_keyword_survives_counterexample:
  "sanitizeSQLParameter defaultSecurityConfig (JStr ''SEL;ECT password FROM users'') =
     JStr ''SELECT password FROM users'' \<and>
   includesStr ''SELECT password FROM users'' ''SELECT''"
proof -
  have "sanitizeSQLString ''SEL;ECT password FROM users'' = ''SELECT password FROM users''"
    unfolding sanitizeSQLString_def kw1 kw2 kw3 ..
  then show ?thesis
    by (simp add: sanitizeSQLParameter_def defaultSecurityConfig_def includesStr.simps
          startsWith_def)
qed


lemma set_flushWord: "set (flushWord w) \<subseteq> set w"
  by (simp add: flushWord_def)

lemma set_keywordScan: "set (keywordScan w s) \<subseteq> set w \<union> set s"
proof (induction s arbitrary: w)
  case Nil
  show ?case by (simp add: set_flushWord)
next
  case (Cons c s)
  show ?case
  proof (cases "isWordChar c")
    case True
    with Cons [of "w @ [c]"] show ?thesis by auto
  next
    case False
    with Cons [of "[]"] set_flushWord [of w] show ?thesis by auto
  qed
qed

lemma stripMetaChars_free: "c \<in> set sqlMetaChars \<Longrightarrow> c \<notin> set (stripMetaChars s)"
  by (simp add: stripMetaChars_def)

lemma stripMetaChars_id: "set s \<inter> set sqlMetaChars = {} \<Longrightarrow> stripMetaChars s = s"
  by (auto simp: stripMetaChars_def filter_id_conv)

lemma stripCommentMarkers_id:
  "CHR ''-'' \<notin> set s \<Longrightarrow> CHR ''*'' \<notin> set s \<Longrightarrow> stripCommentMarkers s = s"
  by (induction s rule: stripCommentMarkers.induct) (auto simp: marker_iff)

lemma isKeyword_Nil [simp]: "\<not> isKeyword []"
  by (simp add: isKeyword_def toUpperCase_def sqlKeywords_def)

lemma wordScan_run:
  "\<forall>c \<in> set u. isWordChar c \<Longrightarrow> wordScan v (u @ rest) = wordScan (v @ u) rest"
  by (induction u arbitrary: v) auto

lemma wordScan_flush:
  assumes "\<forall>c \<in> set w. isWordChar c" and "\<not> isWordChar c"
  shows "wordScan [] (flushWord w @ c # rest) =
           filter (\<lambda>x. \<not> isKeyword x) (if w = [] then [] else [w]) @ wordScan [] rest"
proof -
  have "\<forall>c \<in> set (flushWord w). isWordChar c"
    using assms(1) by (simp add: flushWord_def)
  then have "wordScan [] (flushWord w @ c # rest) = wordScan (flushWord w) (c # rest)"
    using wordScan_run [of "flushWord w" "[]"] by simp
  with assms(2) show ?thesis
    by (auto simp: flushWord_def)
qed

lemma wordScan_keywordScan:
  "\<forall>c \<in> set w. isWordChar c \<Longrightarrow>
     wordScan [] (keywordScan w s) = filter (\<lambda>x. \<not> isKeyword x) (wordScan w s)"
proof (induction s arbitrary: w)
  case Nil
  then have "wordScan [] (flushWord w) = wordScan (flushWord w) []"
    using wordScan_run [of "flushWord w" "[]" "[]"] by (simp add: flushWord_def)
  then show ?case
    by (auto simp: flushWord_def)
next
  case (Cons c s)
  show ?case
  proof (cases "isWordChar c")
    case True
    with Cons show ?thesis by simp
  next
    case False
    with Cons show ?thesis
      by (simp add: wordScan_flush)
  qed
qed

lemma wordsOf_stripKeywords:
  "wordsOf (stripKeywords s) = filter (\<lambda>x. \<not> isKeyword x) (wordsOf s)"
  by (simp add: wordsOf_def stripKeywords_def wordScan_keywordScan)

lemma star_is_meta: "CHR ''*'' \<in> set sqlMetaChars" and semicolon_is_meta: "CHR '';'' \<in> set sqlMetaChars"
  by (simp_all add: sqlMetaChars_def)

text \<open>
  The second and third replacement, read as one walk: \<open>dashScan\<close> computes what they
  compute.
\<close>

lemma underscore_class: "isWordChar (CHR ''_'')" "CHR ''_'' \<in> set sqlMetaChars"
  by (simp_all add: isWordChar_def sqlMetaChars_def)

lemma dash_class: "\<not> isWordChar (CHR ''-'')" "CHR ''-'' \<notin> set sqlMetaChars"
  by (simp_all add: isWordChar_def sqlMetaChars_def asciiLower_def asciiUpper_def asciiDigits_def)

lemma word_not_meta: "isWordChar c \<Longrightarrow> c \<noteq> CHR ''_'' \<Longrightarrow> c \<notin> set sqlMetaChars"
  by (auto simp: isWordChar_def sqlMetaChars_def asciiLower_def asciiUpper_def asciiDigits_def)

lemma stripCommentMarkers_Cons:
  assumes "c \<noteq> CHR ''-''" and "c \<noteq> CHR ''*''" and "CHR ''*'' \<notin> set s"
  shows "stripCommentMarkers (c # s) = c # stripCommentMarkers s"
proof (cases s)
  case Nil
  then show ?thesis by simp
next
  case (Cons b t)
  with assms have "[c, b] \<notin> set sqlCommentMarkers"
    by (auto simp: marker_iff)
  with Cons show ?thesis by simp
qed

lemma stripCommentMarkers_dash:
  assumes "c \<noteq> CHR ''-''" and "c \<noteq> CHR ''*''" and "CHR ''*'' \<notin> set s"
  shows "stripCommentMarkers (CHR ''-'' # c # s) = CHR ''-'' # c # stripCommentMarkers s"
proof -
  from assms have "[CHR ''-'', c] \<notin> set sqlCommentMarkers"
    by (auto simp: marker_iff)
  then have "stripCommentMarkers (CHR ''-'' # c # s) = CHR ''-'' # stripCommentMarkers (c # s)"
    by simp
  with assms show ?thesis
    by (simp add: stripCommentMarkers_Cons)
qed

lemma stripCommentMarkers_dashes:
  "stripCommentMarkers (CHR ''-'' # CHR ''-'' # s) = stripCommentMarkers s"
  by (simp add: marker_iff)

lemma dashScan_passes:
  "stripCommentMarkers ((if pending then ''-'' else []) @ stripMetaChars s) = dashScan pending s"
proof (induction s arbitrary: pending)
  case Nil
  then show ?case by (simp add: stripMetaChars_def)
next
  case (Cons c s)
  have star: "CHR ''*'' \<notin> set (stripMetaChars s)"
    using stripMetaChars_free [OF star_is_meta] .
  consider (meta) "c \<in> set sqlMetaChars"
    | (dash) "c \<notin> set sqlMetaChars" "c = CHR ''-''"
    | (other) "c \<notin> set sqlMetaChars" "c \<noteq> CHR ''-''"
    by blast
  then show ?case
  proof cases
    case meta
    then have "stripMetaChars (c # s) = stripMetaChars s"
      by (simp add: stripMetaChars_def)
    with meta Cons [of pending] show ?thesis by simp
  next
    case dash
    then have m: "stripMetaChars (c # s) = CHR ''-'' # stripMetaChars s"
      by (simp add: stripMetaChars_def)
    show ?thesis
    proof (cases pending)
      case True
      with dash m Cons [of False] show ?thesis
        by (simp add: stripCommentMarkers_dashes del: stripCommentMarkers.simps)
    next
      case False
      with dash m Cons [of True] show ?thesis by simp
    qed
  next
    case other
    then have m: "stripMetaChars (c # s) = c # stripMetaChars s"
      by (simp add: stripMetaChars_def)
    from other star_is_meta have c: "c \<noteq> CHR ''*''"
      by blast
    show ?thesis
    proof (cases pending)
      case True
      with other m c star Cons [of False] show ?thesis
        by (simp add: stripCommentMarkers_dash del: stripCommentMarkers.simps)
    next
      case False
      with other m c star Cons [of False] show ?thesis
        by (simp add: stripCommentMarkers_Cons)
    qed
  qed
qed

lemma sanitizeSQLString_dashScan:
  "sanitizeSQLString s = dashScan False (stripKeywords s)"
  using dashScan_passes [of False "stripKeywords s"] by (simp add: sanitizeSQLString_def)

text \<open>
  The words of the output. As long as the walk of \<open>wordsApart\<close> succeeds, the words
  read off the output are the words read off the input of the two replacements,
  without their underscores; a word of underscores only disappears. The four parts
  are the four states of the walk: \<open>w\<close> is the word being read in the input, \<open>p\<close> the
  word before the gap, which is still open in the output.
\<close>

lemma stripUnderscores_simps [simp]:
  "stripUnderscores [] = []"
  "stripUnderscores (w @ [c]) =
     (if c = CHR ''_'' then stripUnderscores w else stripUnderscores w @ [c])"
  by (simp_all add: stripUnderscores_def)


lemma words_after_deletions:
  "(wordsApart Clear s \<longrightarrow> stripUnderscores w = [] \<longrightarrow>
      wordScan [] (dashScan pending s) =
        filter (\<lambda>x. x \<noteq> []) (map stripUnderscores (wordScan w s))) \<and>
   (wordsApart InWord s \<longrightarrow>
      wordScan (stripUnderscores w) (dashScan False s) =
        filter (\<lambda>x. x \<noteq> []) (map stripUnderscores (wordScan w s))) \<and>
   (wordsApart GapEven s \<longrightarrow> stripUnderscores w = [] \<longrightarrow>
      wordScan p (dashScan False s) =
        (if p = [] then [] else [p]) @
        filter (\<lambda>x. x \<noteq> []) (map stripUnderscores (wordScan w s))) \<and>
   (wordsApart GapOdd s \<longrightarrow> stripUnderscores w = [] \<longrightarrow>
      wordScan p (dashScan True s) =
        (if p = [] then [] else [p]) @
        filter (\<lambda>x. x \<noteq> []) (map stripUnderscores (wordScan w s)))"
proof (induction s arbitrary: w p pending)
  case Nil
  show ?case
    by (simp add: dash_class)
next
  case (Cons c s)
  have clear: "wordScan [] (dashScan pending s) =
      filter (\<lambda>x. x \<noteq> []) (map stripUnderscores (wordScan w s))"
    if "wordsApart Clear s" "stripUnderscores w = []" for w pending
    using Cons [of w pending p] that by blast
  have inword: "wordScan (stripUnderscores w) (dashScan False s) =
      filter (\<lambda>x. x \<noteq> []) (map stripUnderscores (wordScan w s))"
    if "wordsApart InWord s" for w
    using Cons [of w pending p] that by blast
  have even: "wordScan p (dashScan False s) = (if p = [] then [] else [p]) @
      filter (\<lambda>x. x \<noteq> []) (map stripUnderscores (wordScan w s))"
    if "wordsApart GapEven s" "stripUnderscores w = []" for w p
    using Cons [of w pending p] that by blast
  have odd: "wordScan p (dashScan True s) = (if p = [] then [] else [p]) @
      filter (\<lambda>x. x \<noteq> []) (map stripUnderscores (wordScan w s))"
    if "wordsApart GapOdd s" "stripUnderscores w = []" for w p
    using Cons [of w pending p] that by blast
  consider (underscore) "c = CHR ''_''"
    | (letter) "c \<noteq> CHR ''_''" "isWordChar c"
    | (dash) "c = CHR ''-''"
    | (meta) "c \<noteq> CHR ''-''" "\<not> isWordChar c" "c \<in> set sqlMetaChars"
    | (kept) "\<not> isWordChar c" "c \<noteq> CHR ''-''" "c \<notin> set sqlMetaChars"
    using underscore_class by blast
  then show ?case
  proof cases
    case underscore
    have step: "dashScan b (c # s) = dashScan b s" "wordScan v (c # s) = wordScan (v @ [c]) s"
      "wordsApart st (c # s) = wordsApart st s" "stripUnderscores (v @ [c]) = stripUnderscores v"
      for b v st
      using underscore by (simp_all add: underscore_class)
    show ?thesis
      unfolding step
    proof (intro conjI impI)
      assume "wordsApart Clear s" "stripUnderscores w = []"
      then show "wordScan [] (dashScan pending s) =
          filter (\<lambda>x. x \<noteq> []) (map stripUnderscores (wordScan (w @ [c]) s))"
        using clear [of "w @ [c]" pending] by (simp add: underscore)
    next
      assume "wordsApart InWord s"
      then show "wordScan (stripUnderscores w) (dashScan False s) =
          filter (\<lambda>x. x \<noteq> []) (map stripUnderscores (wordScan (w @ [c]) s))"
        using inword [of "w @ [c]"] by (simp add: underscore)
    next
      assume "wordsApart GapEven s" "stripUnderscores w = []"
      then show "wordScan p (dashScan False s) = (if p = [] then [] else [p]) @
          filter (\<lambda>x. x \<noteq> []) (map stripUnderscores (wordScan (w @ [c]) s))"
        using even [of "w @ [c]" p] by (simp add: underscore)
    next
      assume "wordsApart GapOdd s" "stripUnderscores w = []"
      then show "wordScan p (dashScan True s) = (if p = [] then [] else [p]) @
          filter (\<lambda>x. x \<noteq> []) (map stripUnderscores (wordScan (w @ [c]) s))"
        using odd [of "w @ [c]" p] by (simp add: underscore)
    qed
  next
    case letter
    then have c: "c \<notin> set sqlMetaChars" "c \<noteq> CHR ''-''"
      using word_not_meta dash_class by blast+
    have step: "dashScan b (c # s) = (if b then ''-'' else []) @ c # dashScan False s"
      "wordScan v (c # s) = wordScan (v @ [c]) s"
      "wordsApart st (c # s) = (st \<noteq> GapEven \<and> wordsApart InWord s)"
      "stripUnderscores (v @ [c]) = stripUnderscores v @ [c]"
      "wordScan v (CHR ''-'' # r) = (if v = [] then [] else [v]) @ wordScan [] r"
      for b v st r
      using letter c by (simp_all add: dash_class)
    show ?thesis
      unfolding step
    proof (intro conjI impI)
      assume "Clear \<noteq> GapEven \<and> wordsApart InWord s" "stripUnderscores w = []"
      then show "wordScan [] ((if pending then ''-'' else []) @ c # dashScan False s) =
          filter (\<lambda>x. x \<noteq> []) (map stripUnderscores (wordScan (w @ [c]) s))"
        using inword [of "w @ [c]"] by (simp add: step letter dash_class)
    next
      assume "InWord \<noteq> GapEven \<and> wordsApart InWord s"
      then show "wordScan (stripUnderscores w) ((if False then ''-'' else []) @ c # dashScan False s) =
          filter (\<lambda>x. x \<noteq> []) (map stripUnderscores (wordScan (w @ [c]) s))"
        using inword [of "w @ [c]"] by (simp add: step letter dash_class)
    next
      assume "GapEven \<noteq> GapEven \<and> wordsApart InWord s"
      then show "wordScan p ((if False then ''-'' else []) @ c # dashScan False s) =
          (if p = [] then [] else [p]) @
          filter (\<lambda>x. x \<noteq> []) (map stripUnderscores (wordScan (w @ [c]) s))"
        by simp
    next
      assume "GapOdd \<noteq> GapEven \<and> wordsApart InWord s" "stripUnderscores w = []"
      then show "wordScan p ((if True then ''-'' else []) @ c # dashScan False s) =
          (if p = [] then [] else [p]) @
          filter (\<lambda>x. x \<noteq> []) (map stripUnderscores (wordScan (w @ [c]) s))"
        using inword [of "w @ [c]"] by (simp add: step letter dash_class)
    qed
  next
    case dash
    have step: "dashScan b (c # s) = dashScan (\<not> b) s"
      "wordScan v (c # s) = (if v = [] then [] else [v]) @ wordScan [] s"
      "wordsApart st (c # s) = wordsApart (case st of Clear \<Rightarrow> Clear | InWord \<Rightarrow> GapOdd
                    | GapEven \<Rightarrow> GapOdd | GapOdd \<Rightarrow> GapEven) s"
      for b v st
      using dash by (simp_all add: dash_class)
    show ?thesis
      unfolding step
    proof (intro conjI impI)
      assume "wordsApart (case Clear of Clear \<Rightarrow> Clear | InWord \<Rightarrow> GapOdd
                    | GapEven \<Rightarrow> GapOdd | GapOdd \<Rightarrow> GapEven) s" "stripUnderscores w = []"
      then show "wordScan [] (dashScan (\<not> pending) s) =
          filter (\<lambda>x. x \<noteq> []) (map stripUnderscores ((if w = [] then [] else [w]) @ wordScan [] s))"
        using clear [of "[]" "\<not> pending"] by simp
    next
      assume "wordsApart (case InWord of Clear \<Rightarrow> Clear | InWord \<Rightarrow> GapOdd
                    | GapEven \<Rightarrow> GapOdd | GapOdd \<Rightarrow> GapEven) s"
      then show "wordScan (stripUnderscores w) (dashScan (\<not> False) s) =
          filter (\<lambda>x. x \<noteq> []) (map stripUnderscores ((if w = [] then [] else [w]) @ wordScan [] s))"
        using odd [of "[]" "stripUnderscores w"] by simp
    next
      assume "wordsApart (case GapEven of Clear \<Rightarrow> Clear | InWord \<Rightarrow> GapOdd
                    | GapEven \<Rightarrow> GapOdd | GapOdd \<Rightarrow> GapEven) s" "stripUnderscores w = []"
      then show "wordScan p (dashScan (\<not> False) s) = (if p = [] then [] else [p]) @
          filter (\<lambda>x. x \<noteq> []) (map stripUnderscores ((if w = [] then [] else [w]) @ wordScan [] s))"
        using odd [of "[]" p] by simp
    next
      assume "wordsApart (case GapOdd of Clear \<Rightarrow> Clear | InWord \<Rightarrow> GapOdd
                    | GapEven \<Rightarrow> GapOdd | GapOdd \<Rightarrow> GapEven) s" "stripUnderscores w = []"
      then show "wordScan p (dashScan (\<not> True) s) = (if p = [] then [] else [p]) @
          filter (\<lambda>x. x \<noteq> []) (map stripUnderscores ((if w = [] then [] else [w]) @ wordScan [] s))"
        using even [of "[]" p] by simp
    qed
  next
    case meta
    then have u: "c \<noteq> CHR ''_''"
      using underscore_class by blast
    have step: "dashScan b (c # s) = dashScan b s"
      "wordScan v (c # s) = (if v = [] then [] else [v]) @ wordScan [] s"
      "wordsApart st (c # s) = wordsApart (case st of InWord \<Rightarrow> GapEven | _ \<Rightarrow> st) s"
      for b v st
      using meta u by simp_all
    show ?thesis
      unfolding step
    proof (intro conjI impI)
      assume "wordsApart (case Clear of InWord \<Rightarrow> GapEven | _ \<Rightarrow> Clear) s" "stripUnderscores w = []"
      then show "wordScan [] (dashScan pending s) =
          filter (\<lambda>x. x \<noteq> []) (map stripUnderscores ((if w = [] then [] else [w]) @ wordScan [] s))"
        using clear [of "[]" pending] by simp
    next
      assume "wordsApart (case InWord of InWord \<Rightarrow> GapEven | _ \<Rightarrow> InWord) s"
      then show "wordScan (stripUnderscores w) (dashScan False s) =
          filter (\<lambda>x. x \<noteq> []) (map stripUnderscores ((if w = [] then [] else [w]) @ wordScan [] s))"
        using even [of "[]" "stripUnderscores w"] by simp
    next
      assume "wordsApart (case GapEven of InWord \<Rightarrow> GapEven | _ \<Rightarrow> GapEven) s" "stripUnderscores w = []"
      then show "wordScan p (dashScan False s) = (if p = [] then [] else [p]) @
          filter (\<lambda>x. x \<noteq> []) (map stripUnderscores ((if w = [] then [] else [w]) @ wordScan [] s))"
        using even [of "[]" p] by simp
    next
      assume "wordsApart (case GapOdd of InWord \<Rightarrow> GapEven | _ \<Rightarrow> GapOdd) s" "stripUnderscores w = []"
      then show "wordScan p (dashScan True s) = (if p = [] then [] else [p]) @
          filter (\<lambda>x. x \<noteq> []) (map stripUnderscores ((if w = [] then [] else [w]) @ wordScan [] s))"
        using odd [of "[]" p] by simp
    qed
  next
    case kept
    then have u: "c \<noteq> CHR ''_''"
      using underscore_class by blast
    have step: "dashScan b (c # s) = (if b then ''-'' else []) @ c # dashScan False s"
      "wordScan v (c # s) = (if v = [] then [] else [v]) @ wordScan [] s"
      "wordsApart st (c # s) = wordsApart Clear s"
      "wordScan v (CHR ''-'' # r) = (if v = [] then [] else [v]) @ wordScan [] r"
      for b v st r
      using kept u by (simp_all add: dash_class)
    show ?thesis
      unfolding step
    proof (intro conjI impI)
      assume "wordsApart Clear s" "stripUnderscores w = []"
      then show "wordScan [] ((if pending then ''-'' else []) @ c # dashScan False s) =
          filter (\<lambda>x. x \<noteq> []) (map stripUnderscores ((if w = [] then [] else [w]) @ wordScan [] s))"
        using clear [of "[]" False] by (simp add: step dash_class kept)
    next
      assume "wordsApart Clear s"
      then show "wordScan (stripUnderscores w) ((if False then ''-'' else []) @ c # dashScan False s) =
          filter (\<lambda>x. x \<noteq> []) (map stripUnderscores ((if w = [] then [] else [w]) @ wordScan [] s))"
        using clear [of "[]" False] by (simp add: step dash_class kept)
    next
      assume "wordsApart Clear s" "stripUnderscores w = []"
      then show "wordScan p ((if False then ''-'' else []) @ c # dashScan False s) =
          (if p = [] then [] else [p]) @
          filter (\<lambda>x. x \<noteq> []) (map stripUnderscores ((if w = [] then [] else [w]) @ wordScan [] s))"
        using clear [of "[]" False] by (simp add: step dash_class kept)
    next
      assume "wordsApart Clear s" "stripUnderscores w = []"
      then show "wordScan p ((if True then ''-'' else []) @ c # dashScan False s) =
          (if p = [] then [] else [p]) @
          filter (\<lambda>x. x \<noteq> []) (map stripUnderscores ((if w = [] then [] else [w]) @ wordScan [] s))"
        using clear [of "[]" False] by (simp add: step dash_class kept)
    qed
  qed
qed


lemma wordsOf_sanitizeSQLString:
  assumes "wordsApart Clear (stripKeywords s)"
  shows "wordsOf (sanitizeSQLString s) =
           filter (\<lambda>w. w \<noteq> [])
             (map stripUnderscores (filter (\<lambda>w. \<not> isKeyword w) (wordsOf s)))"
proof -
  have "wordScan [] (dashScan False (stripKeywords s)) =
          filter (\<lambda>x. x \<noteq> []) (map stripUnderscores (wordScan [] (stripKeywords s)))"
    using words_after_deletions [of "stripKeywords s" "[]" False "[]"] assms by simp
  then show ?thesis
    using wordsOf_stripKeywords [of s] by (simp add: wordsOf_def sanitizeSQLString_dashScan)
qed

text \<open>
  The condition covers every string without a character that the second and third
  replacement could delete, and the ten payloads of the penetration test; it fails for
  \<open>SEL;ECT password FROM users\<close>. Where it holds, one way is left to form a keyword:
  underscores inside a word, as in \<open>DR_OP\<close>.
\<close>

lemma clean_wordsApart:
  "\<forall>c \<in> set s. c \<notin> set sqlMetaChars \<and> c \<noteq> CHR ''-'' \<Longrightarrow>
     st \<noteq> GapEven \<Longrightarrow> st \<noteq> GapOdd \<Longrightarrow> wordsApart st s"
  by (induction s arbitrary: st) (auto split: gap_state.splits)

lemma clean_input_words:
  assumes clean: "\<forall>c \<in> set input. c \<notin> set sqlMetaChars \<and> c \<noteq> CHR ''-''"
  shows "wordsApart Clear (stripKeywords input)"
    and "\<forall>w \<in> set (wordsOf (sanitizeSQLString input)). \<not> isKeyword w"
proof -
  let ?k = "stripKeywords input"
  have sub: "set ?k \<subseteq> set input"
    using set_keywordScan [of "[]" input] by (simp add: stripKeywords_def)
  with clean have k: "\<forall>c \<in> set ?k. c \<notin> set sqlMetaChars \<and> c \<noteq> CHR ''-''"
    by blast
  then show "wordsApart Clear ?k"
    by (rule clean_wordsApart) simp_all
  from k have "set ?k \<inter> set sqlMetaChars = {}"
    by blast
  then have m: "stripMetaChars ?k = ?k"
    by (rule stripMetaChars_id)
  from k star_is_meta have "CHR ''-'' \<notin> set ?k" "CHR ''*'' \<notin> set ?k"
    by blast+
  then have "stripCommentMarkers (stripMetaChars ?k) = ?k"
    unfolding m by (rule stripCommentMarkers_id)
  then show "\<forall>w \<in> set (wordsOf (sanitizeSQLString input)). \<not> isKeyword w"
    by (simp add: sanitizeSQLString_def wordsOf_stripKeywords)
qed

lemma payloads_apart:
  "list_all (\<lambda>p. wordsApart Clear (stripKeywords p)) sqlInjectionPayloads"
  by code_simp

lemma payloads_underscores:
  "list_all (\<lambda>p. list_all (\<lambda>w. isKeyword w \<or> \<not> isKeyword (stripUnderscores w)) (wordsOf p))
     sqlInjectionPayloads"
  by code_simp

lemma payloads_sanitized:
  "map sanitizeSQLString sqlInjectionPayloads =
     [''  TABLE users '',
      '' OR 1=1'',
      ''  INTO users VALUES (hacker, password) '',
      ''   password FROM users WHERE username=admin'',
      ''  users SET password=hacked WHERE username=admin '',
      '' OR 1=1#'',
      '' OR a=a'',
      ''  DATABASE '',
      ''  xpcmdshell(format c:) '',
      '' OR EXISTS(  FROM users) '']"
  by code_simp

lemma joined_words_not_apart:
  "\<not> wordsApart Clear (stripKeywords ''SEL;ECT password FROM users'')"
  by code_simp

lemma underscore_forms_keyword:
  "wordsApart Clear (stripKeywords ''DR_OP TABLE users'') \<and>
   sanitizeSQLString ''DR_OP TABLE users'' = ''DROP TABLE users''"
  by code_simp

text \<open>
  C4, amended. With SQL injection protection enabled, the output for a string contains
  no \<open>;\<close>, none of the other characters of the second pattern, and no \<open>--\<close>. If the
  deletions of the second and third replacement join no two words of the input once
  its whole-word keywords are taken out (\<open>wordsApart\<close>: between any two of the words
  that are left, underscores aside, stands a character that is kept or an odd number
  of \<open>-\<close>), then the whole words of the output are exactly the whole words of the
  input that are not keywords, without their underscores, those that consisted of
  underscores dropped; and if moreover no such word becomes a keyword by losing its
  underscores, no whole word of the output is a keyword.
\<close>

theorem sanitizeSQLParameter_output:
  assumes "enableSQLInjectionProtection config"
  shows "\<exists>out. sanitizeSQLParameter config (JStr input) = JStr out \<and>
           CHR '';'' \<notin> set out \<and>
           (\<forall>c \<in> set sqlMetaChars. c \<notin> set out) \<and>
           \<not> includesStr out ''--'' \<and>
           (wordsApart Clear (stripKeywords input) \<longrightarrow>
              wordsOf out =
                filter (\<lambda>w. w \<noteq> [])
                  (map stripUnderscores (filter (\<lambda>w. \<not> isKeyword w) (wordsOf input))) \<and>
              ((\<forall>w \<in> set (wordsOf input). \<not> isKeyword w \<longrightarrow> \<not> isKeyword (stripUnderscores w)) \<longrightarrow>
               (\<forall>w \<in> set (wordsOf out). \<not> isKeyword w)))"
proof -
  let ?k = "stripKeywords input"
  let ?m = "stripMetaChars ?k"
  let ?out = "stripCommentMarkers ?m"
  have out: "sanitizeSQLParameter config (JStr input) = JStr ?out"
    using assms by (simp add: sanitizeSQLParameter_def sanitizeSQLString_def)
  have meta: "\<forall>c \<in> set sqlMetaChars. c \<notin> set ?out"
    using set_strip_subset [of ?m] stripMetaChars_free [of _ ?k] by blast
  have dashes: "\<not> includesStr ?out ''--''"
    using no_dashes_after_strip stripMetaChars_free star_is_meta by blast
  have words: "wordsOf ?out =
      filter (\<lambda>w. w \<noteq> [])
        (map stripUnderscores (filter (\<lambda>w. \<not> isKeyword w) (wordsOf input)))"
    if "wordsApart Clear ?k"
    using wordsOf_sanitizeSQLString [OF that] by (simp add: sanitizeSQLString_def)
  have free: "\<forall>w \<in> set (wordsOf ?out). \<not> isKeyword w"
    if "wordsApart Clear ?k"
      and "\<forall>w \<in> set (wordsOf input). \<not> isKeyword w \<longrightarrow> \<not> isKeyword (stripUnderscores w)"
    using that(2) unfolding words [OF that(1)] by auto
  from out meta dashes words free semicolon_is_meta show ?thesis
    by blast
qed

text \<open>
  The theorem at the ten payloads of the penetration test: each output is free of \<open>;\<close>
  and \<open>--\<close> and has no keyword among its whole words.
\<close>

theorem sanitizeSQLParameter_output_witness:
  "list_all (\<lambda>p. \<exists>out. sanitizeSQLParameter defaultSecurityConfig (JStr p) = JStr out \<and>
       CHR '';'' \<notin> set out \<and> \<not> includesStr out ''--'' \<and>
       list_all (\<lambda>w. \<not> isKeyword w) (wordsOf out)) sqlInjectionPayloads"
proof -
  have enabled: "enableSQLInjectionProtection defaultSecurityConfig"
    by (simp add: defaultSecurityConfig_def)
  show ?thesis
    using sanitizeSQLParameter_output [OF enabled] payloads_apart payloads_underscores
    unfolding list_all_iff by blast
qed

section \<open>Form data\<close>

text \<open>
  C9. A plain object with an own property named \<open>__proto__\<close>, as \<open>JSON.parse\<close> builds
  from \<open>{"__proto__": {"isAdmin": true}, "name": "Ann"}\<close>: the result has the key
  \<open>name\<close> only. The assignment \<open>sanitized["__proto__"] = ...\<close> does not create the
  property, so the keys of the result are not those of the input.
\<close>

theorem sanitizeFormData_drops_proto_key:
  "sanitizeFormData purify defaultMiddlewareConfig
     (JObj [(''__proto__'', JObj [(''isAdmin'', JBool True)]), (''name'', JStr ''Ann'')]) =
   Inr (JObj [(''name'', JStr (purify ''Ann''))])"
  by (simp add: sanitizeFormData_def defaultMiddlewareConfig_def setProp_def typeof_def
        defaultSanitizerText_def sanitizeText_def defaultSecurityConfig_def)

text \<open>
  For every other key the loop does what C9 says: on an object whose keys do not
  include \<open>__proto__\<close> the result has the same keys in the same order, each value
  transformed by \<open>sanitizeValue\<close>; and an array comes back as an object keyed by the
  decimal indices. (A value that is itself a \<open>FormData\<close> instance goes through the
  first loop, within the limits noted at its equation.)
\<close>

lemma loop_body:
  "(case v of
      JStr s \<Rightarrow> setProp sanitized key (JStr (txt s))
    | _ \<Rightarrow>
        if typeof v = ''object'' \<and> v \<noteq> JNull
        then setProp sanitized key (sanitizeLoop txt v)
        else setProp sanitized key v) = setProp sanitized key (sanitizeValue txt v)"
  by (cases v) (simp_all add: sanitizeValue_def)

lemma defineProp_fresh: "k \<notin> fst ` set obj \<Longrightarrow> defineProp obj k v = obj @ [(k, v)]"
  by (induction obj) auto

lemma foldl_setProp:
  "distinct (map fst kvs) \<Longrightarrow> ''__proto__'' \<notin> fst ` set kvs \<Longrightarrow>
   fst ` set obj \<inter> fst ` set kvs = {} \<Longrightarrow>
   foldl (\<lambda>sanitized (key, v). setProp sanitized key (f v)) obj kvs =
     obj @ map (\<lambda>(key, v). (key, f v)) kvs"
proof (induction kvs arbitrary: obj)
  case Nil
  show ?case by simp
next
  case (Cons kv kvs)
  obtain k v where kv: "kv = (k, v)" by (cases kv)
  from Cons.prems kv have fresh: "k \<notin> fst ` set obj" and k: "k \<noteq> ''__proto__''"
    by auto
  then have step: "setProp obj k (f v) = obj @ [(k, f v)]"
    by (simp add: setProp_def defineProp_fresh)
  from Cons.prems kv
  have "foldl (\<lambda>sanitized (key, v). setProp sanitized key (f v)) (obj @ [(k, f v)]) kvs =
          (obj @ [(k, f v)]) @ map (\<lambda>(key, v). (key, f v)) kvs"
    by (intro Cons.IH) auto
  with step kv show ?case by simp
qed

lemma sanitizeLoop_object:
  assumes "distinct (map fst props)" and "''__proto__'' \<notin> fst ` set props"
  shows "sanitizeLoop txt (JObj props) =
           JObj (map (\<lambda>(key, v). (key, sanitizeValue txt v)) props)"
  using foldl_setProp [OF assms, of "[]" "sanitizeValue txt"]
  by (simp add: loop_body)

lemma upt_10: "[0..<10] = [0, 1, 2, 3, 4, 5, 6, 7, 8, 9::nat]"
  by (simp add: upt_rec)

lemma digit_value: "n < 10 \<Longrightarrow> of_char (asciiDigits ! n) = 48 + n"
proof -
  assume "n < 10"
  then have "n \<in> set [0..<10]" by simp
  then show ?thesis
    unfolding upt_10 by (auto simp: asciiDigits_def)
qed

lemma readNat_showNat: "readNat (showNat n) = n"
proof (induction n rule: showNat.induct)
  case (1 n)
  show ?case
  proof (cases "n < 10")
    case True
    then show ?thesis
      by (subst showNat.simps) (simp add: readNat_def digit_value)
  next
    case False
    then have "showNat n = showNat (n div 10) @ [asciiDigits ! (n mod 10)]"
      by (subst showNat.simps) simp
    moreover have "readNat (showNat (n div 10)) = n div 10"
      using False by (rule "1.IH")
    ultimately show ?thesis
      by (simp add: readNat_def digit_value)
  qed
qed

lemma showNat_inj: "inj showNat"
  by (rule inj_on_inverseI [where g = readNat]) (rule readNat_showNat)

lemma showNat_digits: "set (showNat n) \<subseteq> set asciiDigits"
proof (induction n rule: showNat.induct)
  case (1 n)
  have digit: "asciiDigits ! k \<in> set asciiDigits" if "k < 10" for k
    using that by (intro nth_mem) (simp add: asciiDigits_def)
  show ?case
  proof (cases "n < 10")
    case True
    then show ?thesis
      using digit [of n] by (subst showNat.simps) simp
  next
    case False
    with "1.IH" digit [of "n mod 10"] show ?thesis
      by (subst showNat.simps) simp
  qed
qed

lemma showNat_not_proto: "showNat n \<noteq> ''__proto__''"
proof
  assume "showNat n = ''__proto__''"
  then have "CHR ''_'' \<in> set (showNat n)" by simp
  with showNat_digits [of n] show False
    by (auto simp: asciiDigits_def)
qed

lemma index_keys:
  "distinct (map showNat [0..<n])" "''__proto__'' \<notin> set (map showNat [0..<n])"
proof -
  show "distinct (map showNat [0..<n])"
    by (simp add: distinct_map inj_on_subset [OF showNat_inj])
  show "''__proto__'' \<notin> set (map showNat [0..<n])"
  proof
    assume "''__proto__'' \<in> set (map showNat [0..<n])"
    then obtain i where "showNat i = ''__proto__''"
      by (auto simp del: upt.simps)
    with showNat_not_proto show False
      by blast
  qed
qed

lemma sanitizeLoop_array:
  "sanitizeLoop txt (JArr items) =
     JObj (zip (map showNat [0..<length items]) (map (sanitizeValue txt) items))"
proof -
  let ?keys = "map showNat [0..<length items]"
  let ?kvs = "zip ?keys items"
  have keys: "map fst ?kvs = ?keys"
    by simp
  have "foldl (\<lambda>sanitized (key, v). setProp sanitized key (sanitizeValue txt v)) [] ?kvs =
          [] @ map (\<lambda>(key, v). (key, sanitizeValue txt v)) ?kvs"
  proof (rule foldl_setProp)
    show "distinct (map fst ?kvs)"
      unfolding keys by (rule index_keys)
    have "fst ` set ?kvs = set (map fst ?kvs)"
      by (simp only: set_map)
    then show "''__proto__'' \<notin> fst ` set ?kvs"
      unfolding keys using index_keys(2) [of "length items"] by simp
    show "fst ` set [] \<inter> fst ` set ?kvs = {}"
      by simp
  qed
  moreover have "map (\<lambda>(key, v). (key, sanitizeValue txt v)) ?kvs =
      zip ?keys (map (sanitizeValue txt) items)"
    by (simp add: zip_map2 case_prod_unfold del: upt.simps)
  ultimately show ?thesis
    by (simp add: loop_body del: upt.simps)
qed


lemma defaultSanitizerText_purify: "defaultSanitizerText purify = purify"
  by (rule ext) (simp add: defaultSanitizerText_def sanitizeText_def defaultSecurityConfig_def)

lemma sanitizeFormData_plain_object:
  assumes "mw_enableInputSanitization config"
    and "distinct (map fst props)" and "''__proto__'' \<notin> fst ` set props"
  shows "sanitizeFormData purify config (JObj props) =
           Inr (JObj (map (\<lambda>(key, v). (key, sanitizeValue purify v)) props))"
  using assms
  by (simp add: sanitizeFormData_def defaultSanitizerText_purify sanitizeLoop_object
        del: sanitizeLoop.simps)

lemma sanitizeValue_leaves:
  "sanitizeValue txt (JStr s) = JStr (txt s)"
  "sanitizeValue txt JNull = JNull"
  "sanitizeValue txt JUndefined = JUndefined"
  "sanitizeValue txt (JNum n) = JNum n"
  "sanitizeValue txt (JBool b) = JBool b"
  by (simp_all add: sanitizeValue_def typeof_def)

lemma sanitizeValue_containers:
  "sanitizeValue txt (JArr items) =
     JObj (zip (map showNat [0..<length items]) (map (sanitizeValue txt) items))"
  "distinct (map fst props) \<Longrightarrow> ''__proto__'' \<notin> fst ` set props \<Longrightarrow>
     sanitizeValue txt (JObj props) =
       JObj (map (\<lambda>(key, v). (key, sanitizeValue txt v)) props)"
  by (simp_all add: sanitizeValue_def typeof_def sanitizeLoop_array sanitizeLoop_object
        del: sanitizeLoop.simps)

end
